theory Spec2Isabelle
  imports Main
begin

section \<open>JavaScript numbers and strings used by the worker\<close>

text \<open>
  The worker (src/src/index.js) only ever computes with integral Numbers and with
  NaN (an Invalid Date's fields).  A Number is therefore an \<open>int option\<close>, \<open>None\<close>
  being NaN; every arithmetic operation with NaN yields NaN.
\<close>

type_synonym number = "int option"

fun digit_char :: "nat \<Rightarrow> char" where
  "digit_char n = (''0123456789'' ! n)"

text \<open>Decimal digits of a natural number, most significant first (Number::toString).\<close>

fun nat_digits :: "nat \<Rightarrow> string" where
  "nat_digits n = (if n < 10 then [digit_char n] else nat_digits (n div 10) @ [digit_char (n mod 10)])"

declare nat_digits.simps [simp del]

definition int_toString :: "int \<Rightarrow> string" where
  "int_toString i = (if i < 0 then CHR ''-'' # nat_digits (nat (- i)) else nat_digits (nat i))"

text \<open>\<open>String(x)\<close> and template interpolation of a Number.\<close>

definition String_of :: "number \<Rightarrow> string" where
  "String_of x = (case x of None \<Rightarrow> ''NaN'' | Some i \<Rightarrow> int_toString i)"

text \<open>\<open>s.padStart(n, '0')\<close>.\<close>

definition padStart0 :: "nat \<Rightarrow> string \<Rightarrow> string" where
  "padStart0 n s = replicate (n - length s) CHR ''0'' @ s"

text \<open>\<open>x + k\<close> on Numbers.\<close>

definition num_add :: "number \<Rightarrow> int \<Rightarrow> number" where
  "num_add x k = map_option (\<lambda>i. i + k) x"

text \<open>\<open>a === b\<close> on Numbers: NaN equals nothing, not even itself.\<close>

definition num_strict_eq :: "number \<Rightarrow> number \<Rightarrow> bool" where
  "num_strict_eq a b = (case (a, b) of (Some x, Some y) \<Rightarrow> x = y | _ \<Rightarrow> False)"

section \<open>The Date object (ECMA-262, 21.4.1), local time zone UTC\<close>

text \<open>
  A Date holds a time value: milliseconds since the epoch, or NaN.  The worker runs on
  Cloudflare Workers, whose local time zone is UTC, so \<open>LocalTime(t) = t = UTC(t)\<close>
  and the \<open>get...\<close>/\<open>set...\<close> methods below work on the time value itself.
\<close>

type_synonym Date = "int option"

definition msPerDay :: int where "msPerDay = 86400000"
definition msPerHour :: int where "msPerHour = 3600000"
definition msPerMinute :: int where "msPerMinute = 60000"
definition msPerSecond :: int where "msPerSecond = 1000"

definition Day :: "int \<Rightarrow> int" where
  "Day t = t div msPerDay"

definition TimeWithinDay :: "int \<Rightarrow> int" where
  "TimeWithinDay t = t mod msPerDay"

definition DaysInYear :: "int \<Rightarrow> int" where
  "DaysInYear y =
     (if y mod 4 \<noteq> 0 then 365
      else if y mod 100 \<noteq> 0 then 366
      else if y mod 400 \<noteq> 0 then 365
      else 366)"

definition DayFromYear :: "int \<Rightarrow> int" where
  "DayFromYear y =
     365 * (y - 1970) + (y - 1969) div 4 - (y - 1901) div 100 + (y - 1601) div 400"

text \<open>
  \<open>YearFromTime(t)\<close> is the largest year \<open>y\<close> with \<open>TimeFromYear(y) \<le> t\<close>.  It is found
  by walking down from a year that is not before it: a year has at least 365 days after
  1970 and at most 366 days before.
\<close>

function year_down :: "int \<Rightarrow> int \<Rightarrow> int" where
  "year_down d y = (if DayFromYear y \<le> d then y else year_down d (y - 1))"
  by pat_completeness auto
termination
proof (relation "measure (\<lambda>(d, y). nat (DayFromYear y - d))")
  show "wf (measure (\<lambda>(d, y). nat (DayFromYear y - d)))" by simp
next
  fix d y :: int
  assume a: "\<not> DayFromYear y \<le> d"
  have step: "a div k \<le> (a + 1) div k \<and> (a + 1) div k \<le> a div k + 1" if "0 < k" for a k :: int
  proof
    show "a div k \<le> (a + 1) div k" using that by (simp add: zdiv_mono1)
    have "(a + 1) div k \<le> (a + k) div k" using that by (intro zdiv_mono1) auto
    also have "\<dots> = a div k + 1" using that by (simp add: div_add_self2)
    finally show "(a + 1) div k \<le> a div k + 1" .
  qed
  have "DayFromYear (y - 1) < DayFromYear y"
    using step [of 4 "y - 1970"] step [of 100 "y - 1902"] step [of 400 "y - 1602"]
    unfolding DayFromYear_def by (simp add: algebra_simps)
  with a show "((d, y - 1), (d, y)) \<in> measure (\<lambda>(d, y). nat (DayFromYear y - d))"
    by simp
qed

declare year_down.simps [simp del]

definition YearFromDay :: "int \<Rightarrow> int" where
  "YearFromDay d = year_down d (1970 + max (d div 365) (d div 366))"

definition YearFromTime :: "int \<Rightarrow> int" where
  "YearFromTime t = YearFromDay (Day t)"

definition InLeapYear :: "int \<Rightarrow> int" where
  "InLeapYear t = (if DaysInYear (YearFromTime t) = 366 then 1 else 0)"

definition DayWithinYear :: "int \<Rightarrow> int" where
  "DayWithinYear t = Day t - DayFromYear (YearFromTime t)"

text \<open>The month table of ECMA-262: months are numbered from 0 (January) to 11.\<close>

definition MonthFromTime :: "int \<Rightarrow> int" where
  "MonthFromTime t =
     (let d = DayWithinYear t; l = InLeapYear t in
      if d < 31 then 0
      else if d < 59 + l then 1
      else if d < 90 + l then 2
      else if d < 120 + l then 3
      else if d < 151 + l then 4
      else if d < 181 + l then 5
      else if d < 212 + l then 6
      else if d < 243 + l then 7
      else if d < 273 + l then 8
      else if d < 304 + l then 9
      else if d < 334 + l then 10
      else 11)"

definition DateFromTime :: "int \<Rightarrow> int" where
  "DateFromTime t =
     (let d = DayWithinYear t; l = InLeapYear t; m = MonthFromTime t in
      if m = 0 then d + 1
      else if m = 1 then d - 30
      else if m = 2 then d - 58 - l
      else if m = 3 then d - 89 - l
      else if m = 4 then d - 119 - l
      else if m = 5 then d - 150 - l
      else if m = 6 then d - 180 - l
      else if m = 7 then d - 211 - l
      else if m = 8 then d - 242 - l
      else if m = 9 then d - 272 - l
      else if m = 10 then d - 303 - l
      else d - 333 - l)"

definition HourFromTime :: "int \<Rightarrow> int" where
  "HourFromTime t = (t div msPerHour) mod 24"

definition MakeTime :: "int \<Rightarrow> int \<Rightarrow> int \<Rightarrow> int \<Rightarrow> int" where
  "MakeTime h m s milli = h * msPerHour + m * msPerMinute + s * msPerSecond + milli"

text \<open>
  \<open>MakeDay(year, month, date)\<close>: the day number of the first of the month
  \<open>(ym, mn)\<close>, plus \<open>date - 1\<close>.  The first of the month is \<open>DayFromYear(ym)\<close> plus the
  lengths of the months before \<open>mn\<close>, the same table as in \<open>MonthFromTime\<close>.
\<close>

definition DaysBeforeMonth :: "int \<Rightarrow> int \<Rightarrow> int" where
  "DaysBeforeMonth ym mn =
     (let l = (if DaysInYear ym = 366 then 1 else 0) in
      if mn = 0 then 0
      else if mn = 1 then 31
      else if mn = 2 then 59 + l
      else if mn = 3 then 90 + l
      else if mn = 4 then 120 + l
      else if mn = 5 then 151 + l
      else if mn = 6 then 181 + l
      else if mn = 7 then 212 + l
      else if mn = 8 then 243 + l
      else if mn = 9 then 273 + l
      else if mn = 10 then 304 + l
      else 334 + l)"

definition MakeDay :: "int \<Rightarrow> int \<Rightarrow> int \<Rightarrow> int" where
  "MakeDay year month date =
     (let ym = year + month div 12; mn = month mod 12 in
      DayFromYear ym + DaysBeforeMonth ym mn + date - 1)"

definition MakeDate :: "int \<Rightarrow> int \<Rightarrow> int" where
  "MakeDate day time = day * msPerDay + time"

text \<open>\<open>TimeClip\<close>: a time value further than 8.64e15 ms from the epoch is NaN.\<close>

definition TimeClip :: "int \<Rightarrow> Date" where
  "TimeClip t = (if \<bar>t\<bar> > 8640000000000000 then None else Some t)"

definition getFullYear :: "Date \<Rightarrow> number" where
  "getFullYear date = map_option YearFromTime date"

definition getMonth :: "Date \<Rightarrow> number" where
  "getMonth date = map_option MonthFromTime date"

definition getDate :: "Date \<Rightarrow> number" where
  "getDate date = map_option DateFromTime date"

definition getHours :: "Date \<Rightarrow> number" where
  "getHours date = map_option HourFromTime date"

text \<open>
  \<open>date.setDate(dt)\<close>: an Invalid Date stays invalid, a NaN argument invalidates the
  date, otherwise the day of the month is replaced and the result clipped.
\<close>

definition setDate :: "Date \<Rightarrow> number \<Rightarrow> Date" where
  "setDate date dt =
     (case date of
        None \<Rightarrow> None
      | Some t \<Rightarrow>
          (case dt of
             None \<Rightarrow> None
           | Some n \<Rightarrow>
               TimeClip (MakeDate (MakeDay (YearFromTime t) (MonthFromTime t) n) (TimeWithinDay t))))"

text \<open>
  \<^verbatim>\<open>function formatDate(date)\<close> (index.js, line 550): year, month and day of the month
  joined by \<open>-\<close>, month and day padded to two digits, the year printed as it is.
\<close>

definition formatDate :: "Date \<Rightarrow> string" where
  "formatDate date =
     (let year = getFullYear date;
          month = padStart0 2 (String_of (num_add (getMonth date) 1));
          day = padStart0 2 (String_of (getDate date))
      in String_of year @ ''-'' @ month @ ''-'' @ day)"

section \<open>Local time in the configuration's time zone\<close>

text \<open>
  Both the patcher and the scheduling decision compute
  \<^verbatim>\<open>new Date(now.toLocaleString('en-US', { timeZone: config.timezone }))\<close>.
  \<open>toLocaleString\<close> prints the wall-clock reading of \<open>now\<close> in the zone as
  \<open>M/D/YYYY, h:mm:ss AM\<close>, and raises a RangeError for a zone the runtime does not know;
  \<open>new Date(string)\<close> reads these fields back as a local (here UTC) time.  The zone
  database is not part of the repository: the conversion is the parameter
  \<open>toLocale\<close> of the runtime, which yields the fields of the printed reading.
\<close>

record wallclock =
  wYear :: int
  wMonth :: int
  wDay :: int
  wHour :: int
  wMinute :: int
  wSecond :: int

text \<open>
  What the worker takes from its platform: the zone conversion, SHA-256 as used by
  \<^verbatim>\<open>hashString\<close> (line 542), and the constant of \<^verbatim>\<open>../cache_version.js\<close>.
\<close>

record runtime =
  toLocale :: "string \<Rightarrow> int \<Rightarrow> wallclock option"
  hashString :: "string \<Rightarrow> string"
  CACHE_VERSION :: string

datatype error =
    RangeError
  | TypeError
  | FetchFailed
  | UpdateFailed
  | RateLimitExceeded

text \<open>
  \<open>error.message\<close>.  The texts of RangeError and TypeError are the engine's; the text of
  UpdateFailed goes on with the status and the body of the response.
\<close>

fun message :: "error \<Rightarrow> string" where
  "message RateLimitExceeded = ''Rate limit exceeded. You can only configure 5 forms per day.''"
| "message FetchFailed = ''Failed to fetch form from Tally API''"
| "message UpdateFailed = ''Failed to update form via Tally API''"
| "message RangeError = ''Invalid time zone specified''"
| "message TypeError = ''Cannot convert undefined or null to object''"

text \<open>\<open>new Date(string)\<close> on the printed reading: local time from its fields.\<close>

definition parseLocale :: "wallclock \<Rightarrow> Date" where
  "parseLocale w =
     TimeClip (MakeDate (MakeDay (wYear w) (wMonth w - 1) (wDay w))
                        (MakeTime (wHour w) (wMinute w) (wSecond w) 0))"

definition tzDate :: "runtime \<Rightarrow> string \<Rightarrow> int \<Rightarrow> error + Date" where
  "tzDate rt zone now =
     (case toLocale rt zone now of
        None \<Rightarrow> Inl RangeError
      | Some w \<Rightarrow> Inr (parseLocale w))"

section \<open>Configurations and remote forms\<close>

text \<open>
  A day offset of a field rule as it arrives in the JSON body: absent (\<open>undefined\<close>),
  \<open>null\<close>, or an integer.
\<close>

datatype offset = Undefined | Null | Days int

record fieldConfig =
  enabled :: bool
  minDays :: offset
  maxDays :: offset

text \<open>
  A JSON object is the list of its members; \<open>fields[uuid]\<close> is \<open>map_of\<close>.  The
  member \<open>fields\<close> of a configuration is \<open>cfg_fields\<close> here.
\<close>

record config =
  apiKey :: string
  formId :: string
  timezone :: string
  cfg_fields :: "(string \<times> fieldConfig) list"
  lastRun :: "int option"
  disabled :: bool
  updatedAt :: int

text \<open>
  A block of the remote form.  Of its payload the worker reads and writes
  \<open>afterDate\<close> (earliest selectable date) and \<open>beforeDate\<close> (latest selectable date);
  \<open>None\<close> is an attribute that is absent or not a string.  Everything else is carried
  along untouched.
\<close>

record block_payload =
  afterDate :: "string option"
  beforeDate :: "string option"
  payload_rest :: string

record block =
  block_type :: string
  uuid :: string
  payload :: "block_payload option"
  block_rest :: string

text \<open>
  The remote form service for the form of one configuration: whether the GET and the
  PATCH answer with an ok status (a rejected \<open>fetch\<close> or an unreadable body throws on
  the same path as a status that is not ok), and the form's \<open>blocks\<close> (\<open>None\<close> when the
  form has no array of blocks).  An accepted PATCH replaces the blocks by the ones sent.
\<close>

record remote =
  getOk :: bool
  patchOk :: bool
  blocks :: "block list option"

section \<open>The patcher: \<^verbatim>\<open>updateFormDateLimits\<close> (index.js, line 326)\<close>

text \<open>
  Lines 396-398 and 410-412: a copy of \<open>tzNow\<close>, moved by \<open>setDate(getDate() + days)\<close>
  and formatted.
\<close>

definition computeBoundary :: "Date \<Rightarrow> int \<Rightarrow> string" where
  "computeBoundary tzNow days = formatDate (setDate tzNow (num_add (getDate tzNow) days))"

definition hasDays :: "offset \<Rightarrow> bool" where
  "hasDays x = (x \<noteq> Null \<and> x \<noteq> Undefined)"

definition emptyPayload :: block_payload where
  "emptyPayload = \<lparr>afterDate = None, beforeDate = None, payload_rest = []\<rparr>"

text \<open>Lines 395-406: the earliest selectable date, written only if it differs.\<close>

definition setAfterDate :: "Date \<Rightarrow> offset \<Rightarrow> block_payload \<Rightarrow> block_payload \<times> bool" where
  "setAfterDate tzNow off p =
     (case off of
        Days n \<Rightarrow>
          (let formattedMinDate = computeBoundary tzNow n in
           if afterDate p \<noteq> Some formattedMinDate
           then (p\<lparr>afterDate := Some formattedMinDate\<rparr>, True)
           else (p, False))
      | _ \<Rightarrow> (p, False))"

text \<open>Lines 408-420: the latest selectable date, written only if it differs.\<close>

definition setBeforeDate :: "Date \<Rightarrow> offset \<Rightarrow> block_payload \<Rightarrow> block_payload \<times> bool" where
  "setBeforeDate tzNow off p =
     (case off of
        Days n \<Rightarrow>
          (let formattedMaxDate = computeBoundary tzNow n in
           if beforeDate p \<noteq> Some formattedMaxDate
           then (p\<lparr>beforeDate := Some formattedMaxDate\<rparr>, True)
           else (p, False))
      | _ \<Rightarrow> (p, False))"

text \<open>
  The body of \<open>form.blocks.forEach\<close> (lines 354-429): the block as it is left, and
  whether \<open>fieldModified\<close> was set for it.
\<close>

definition updateBlock :: "config \<Rightarrow> Date \<Rightarrow> block \<Rightarrow> block \<times> bool" where
  "updateBlock cfg tzNow b =
     (if block_type b = ''INPUT_DATE'' then
        (case map_of (cfg_fields cfg) (uuid b) of
           None \<Rightarrow> (b, False)
         | Some fieldCfg \<Rightarrow>
             if \<not> enabled fieldCfg then (b, False)
             else if \<not> hasDays (minDays fieldCfg) \<and> \<not> hasDays (maxDays fieldCfg) then (b, False)
             else
               (let p0 = (case payload b of None \<Rightarrow> emptyPayload | Some p \<Rightarrow> p);
                    (p1, m1) = setAfterDate tzNow (minDays fieldCfg) p0;
                    (p2, m2) = setBeforeDate tzNow (maxDays fieldCfg) p1
                in (b\<lparr>payload := Some p2\<rparr>, m1 \<or> m2)))
      else (b, False))"

text \<open>
  What the claims about the patcher speak of: the rule of a block's field
  (\<open>config.fields[block.uuid]\<close>), the field's current remote boundaries, and a field the
  patcher is not to manage: its rule is absent, or disabled, or has no offset at all.
\<close>

definition fieldRule :: "config \<Rightarrow> block \<Rightarrow> fieldConfig option" where
  "fieldRule cfg b = map_of (cfg_fields cfg) (uuid b)"

definition remoteAfter :: "block \<Rightarrow> string option" where
  "remoteAfter b = (case payload b of None \<Rightarrow> None | Some p \<Rightarrow> afterDate p)"

definition remoteBefore :: "block \<Rightarrow> string option" where
  "remoteBefore b = (case payload b of None \<Rightarrow> None | Some p \<Rightarrow> beforeDate p)"

definition unmanaged :: "config \<Rightarrow> block \<Rightarrow> bool" where
  "unmanaged cfg b =
     (case fieldRule cfg b of
        None \<Rightarrow> True
      | Some fc \<Rightarrow> \<not> enabled fc \<or> (\<not> hasDays (minDays fc) \<and> \<not> hasDays (maxDays fc)))"

text \<open>
  \<^verbatim>\<open>updateFormDateLimits(config, env)\<close>, with the instant that \<open>new Date()\<close> reads as
  \<open>now\<close>.  The result is the error thrown, or whether the PATCH was sent (the JavaScript
  function itself returns nothing), together with the remote form afterwards.
\<close>

definition updateFormDateLimits :: "runtime \<Rightarrow> config \<Rightarrow> int \<Rightarrow> remote \<Rightarrow> (error + bool) \<times> remote" where
  "updateFormDateLimits rt cfg now r =
     (if \<not> getOk r then (Inl FetchFailed, r)
      else
        (case blocks r of
           None \<Rightarrow> (Inr False, r)
         | Some bs \<Rightarrow>
             (case tzDate rt (timezone cfg) now of
                Inl e \<Rightarrow> (Inl e, r)
              | Inr tzNow \<Rightarrow>
                  (let res = map (updateBlock cfg tzNow) bs;
                       blocksModified = list_ex snd res
                   in if blocksModified then
                        (if patchOk r then (Inr True, r\<lparr>blocks := Some (map fst res)\<rparr>)
                         else (Inl UpdateFailed, r))
                      else (Inr False, r)))))"

section \<open>The key-value store\<close>

text \<open>
  The worker's KV namespace holds three kinds of entries, told apart by the prefix of
  their key: \<open>config:<hash>\<close>, \<open>metadata:<hash>\<close> and \<open>ratelimit:<version>:<ip>\<close>.  Each
  kind is a map from the rest of the key to the value and the \<open>expirationTtl\<close> it was put
  with (\<open>None\<close>: no expiry).  A counter is stored as the decimal string of an integer and
  read back with \<open>parseInt\<close>; the map holds the integer.
\<close>

record metadata =
  lastUpdateHour :: number
  lastUpdateDate :: string
  meta_timezone :: string

record store =
  configs :: "string \<rightharpoonup> config \<times> nat option"
  metadatas :: "string \<rightharpoonup> metadata \<times> nat option"
  ratelimits :: "string \<rightharpoonup> int \<times> nat option"

section \<open>The scheduling decision: \<^verbatim>\<open>shouldUpdateNow\<close> (index.js, line 468)\<close>

text \<open>Lines 488 and 497: the local date of \<open>tzTime\<close>.\<close>

definition todayDate :: "Date \<Rightarrow> string" where
  "todayDate tzTime =
     String_of (getFullYear tzTime) @ ''-''
       @ padStart0 2 (String_of (num_add (getMonth tzTime) 1)) @ ''-''
       @ padStart0 2 (String_of (getDate tzTime))"

definition shouldUpdateNow :: "runtime \<Rightarrow> config \<Rightarrow> int \<Rightarrow> store \<Rightarrow> (error + bool) \<times> store" where
  "shouldUpdateNow rt cfg now s =
     (if disabled cfg then (Inr False, s)
      else
        (case tzDate rt (timezone cfg) now of
           Inl e \<Rightarrow> (Inl e, s)
         | Inr tzTime \<Rightarrow>
             (let currentHour = getHours tzTime;
                  metadataKey = hashString rt (formId cfg);
                  fresh = \<lparr>lastUpdateHour = currentHour, lastUpdateDate = todayDate tzTime,
                           meta_timezone = timezone cfg\<rparr>;
                  skip = (case metadatas s metadataKey of
                            None \<Rightarrow> False
                          | Some (md, ttl) \<Rightarrow>
                              lastUpdateDate md = todayDate tzTime
                                \<and> num_strict_eq (lastUpdateHour md) currentHour)
              in if skip then (Inr False, s)
                 else (Inr True,
                       s\<lparr>metadatas := (metadatas s)(metadataKey \<mapsto> (fresh, Some 86400))\<rparr>))))"

text \<open>
  The scheduling decisions for one configuration at a list of instants, one after the
  other on the same store: their results and the store left.
\<close>

fun decideAll :: "runtime \<Rightarrow> config \<Rightarrow> int list \<Rightarrow> store \<Rightarrow> (error + bool) list \<times> store" where
  "decideAll rt cfg [] s = ([], s)"
| "decideAll rt cfg (now # nows) s =
     (let (x, s1) = shouldUpdateNow rt cfg now s;
          (xs, s2) = decideAll rt cfg nows s1
      in (x # xs, s2))"

text \<open>
  The stored run metadata of a key records this local date and this local hour: the test
  of line 491.
\<close>

definition handled :: "store \<Rightarrow> string \<Rightarrow> string \<Rightarrow> int \<Rightarrow> bool" where
  "handled s key date hour =
     (case metadatas s key of
        None \<Rightarrow> False
      | Some (md, ttl) \<Rightarrow> lastUpdateDate md = date \<and> lastUpdateHour md = Some hour)"

section \<open>The quota: \<^verbatim>\<open>checkRateLimit\<close> and \<^verbatim>\<open>incrementRateLimit\<close> (lines 510-539)\<close>

definition rateLimitKey :: "runtime \<Rightarrow> string \<Rightarrow> string" where
  "rateLimitKey rt ip = CACHE_VERSION rt @ '':'' @ ip"

definition checkRateLimit :: "runtime \<Rightarrow> string \<Rightarrow> store \<Rightarrow> bool \<times> store" where
  "checkRateLimit rt ip s =
     (case ratelimits s (rateLimitKey rt ip) of
        None \<Rightarrow> (True, s)
      | Some (count, ttl) \<Rightarrow> (count < 5, s))"

definition incrementRateLimit :: "runtime \<Rightarrow> string \<Rightarrow> store \<Rightarrow> (error + unit) \<times> store" where
  "incrementRateLimit rt ip s =
     (let currentCount = (case ratelimits s (rateLimitKey rt ip) of
                            None \<Rightarrow> 0
                          | Some (count, ttl) \<Rightarrow> count)
      in if currentCount \<ge> 5 then (Inl RateLimitExceeded, s)
         else
           (let newCount = currentCount + 1
            in (Inr (),
                s\<lparr>ratelimits := (ratelimits s)(rateLimitKey rt ip \<mapsto> (newCount, Some 86400))\<rparr>)))"

text \<open>\<open>n\<close> reservations in a row for one requester: their outcomes and the store left.\<close>

fun reserveTimes :: "runtime \<Rightarrow> string \<Rightarrow> nat \<Rightarrow> store \<Rightarrow> (error + unit) list \<times> store" where
  "reserveTimes rt ip 0 s = ([], s)"
| "reserveTimes rt ip (Suc n) s =
     (let (x, s1) = incrementRateLimit rt ip s;
          (xs, s2) = reserveTimes rt ip n s1
      in (x # xs, s2))"

text \<open>The counter of a requester as \<open>incrementRateLimit\<close> reads it (absent counts as 0).\<close>

definition currentCount :: "runtime \<Rightarrow> string \<Rightarrow> store \<Rightarrow> int" where
  "currentCount rt ip s =
     (case ratelimits s (rateLimitKey rt ip) of None \<Rightarrow> 0 | Some (count, ttl) \<Rightarrow> count)"

section \<open>Saving a configuration: \<^verbatim>\<open>handleSaveConfig\<close> (index.js, line 260)\<close>

text \<open>
  The JSON body of the request and the \<open>CF-Connecting-IP\<close> header.  A required string
  that is absent or empty is falsy; it is the empty string here.
\<close>

record save_request =
  req_apiKey :: string
  req_formId :: string
  req_timezone :: string
  req_fields :: "(string \<times> fieldConfig) list option"
  req_ip :: "string option"

datatype response_body = Success | ErrorBody string

record response =
  status :: nat
  body :: response_body

definition jsonResponse :: "response_body \<Rightarrow> nat \<Rightarrow> response" where
  "jsonResponse data st = \<lparr>status = st, body = data\<rparr>"

text \<open>Line 281: is any field rule enabled with an offset that is not \<open>null\<close>?\<close>

definition hasActiveFields :: "(string \<times> fieldConfig) list \<Rightarrow> bool" where
  "hasActiveFields fs =
     list_ex (\<lambda>(k, c). enabled c \<and> (minDays c \<noteq> Null \<or> maxDays c \<noteq> Null)) fs"

text \<open>Line 276: \<^verbatim>\<open>request.headers.get('CF-Connecting-IP') || 'unknown'\<close>.\<close>

definition clientIP :: "save_request \<Rightarrow> string" where
  "clientIP req =
     (case req_ip req of
        None \<Rightarrow> ''unknown''
      | Some ip \<Rightarrow> if ip = [] then ''unknown'' else ip)"

text \<open>Lines 285-293: the configuration that is stored.\<close>

definition buildConfig :: "save_request \<Rightarrow> (string \<times> fieldConfig) list \<Rightarrow> int \<Rightarrow> config" where
  "buildConfig req fs t1 =
     \<lparr>apiKey = req_apiKey req, formId = req_formId req, timezone = req_timezone req,
       cfg_fields = fs, lastRun = None, disabled = \<not> hasActiveFields fs, updatedAt = t1\<rparr>"

text \<open>
  \<open>t1\<close> is the instant read by \<open>Date.now()\<close> (line 292), \<open>t2\<close> the one read by the
  immediate update.  The outer \<open>catch\<close> turns every error into a response with status
  500 and the error's message.
\<close>

definition handleSaveConfig ::
  "runtime \<Rightarrow> save_request \<Rightarrow> int \<Rightarrow> int \<Rightarrow> remote \<Rightarrow> store \<Rightarrow> response \<times> remote \<times> store" where
  "handleSaveConfig rt req t1 t2 r s =
     (if req_apiKey req = [] \<or> req_formId req = [] \<or> req_timezone req = []
      then (jsonResponse (ErrorBody ''Missing required fields'') 400, r, s)
      else
        (let configKey = hashString rt (req_formId req);
             existingConfig = configs s configKey;
             (limited, s1) =
               (if existingConfig = None
                then incrementRateLimit rt (clientIP req) s
                else (Inr (), s))
         in case limited of
              Inl e \<Rightarrow> (jsonResponse (ErrorBody (message e)) 500, r, s1)
            | Inr _ \<Rightarrow>
                (case req_fields req of
                   None \<Rightarrow> (jsonResponse (ErrorBody (message TypeError)) 500, r, s1)
                 | Some fs \<Rightarrow>
                     (let active = hasActiveFields fs;
                          cfg = buildConfig req fs t1
                      in if \<not> active then
                           (jsonResponse Success 200, r,
                            s1\<lparr>configs := (configs s1)(configKey \<mapsto> (cfg, Some 259200))\<rparr>)
                         else
                           (let s2 = s1\<lparr>configs := (configs s1)(configKey \<mapsto> (cfg, None))\<rparr>;
                                (applied, r') = updateFormDateLimits rt cfg t2 r
                            in (jsonResponse Success 200, r', s2))))))"

section \<open>The hourly tick: the loop body of \<^verbatim>\<open>runCronTask\<close> (index.js, line 84)\<close>

text \<open>
  The body of the loop over the configuration keys (lines 92-113).  \<open>t1\<close>, \<open>t2\<close> and
  \<open>t3\<close> are the instants read by the scheduling decision, by the patcher and by
  \<open>Date.now()\<close>.  An error of either is caught and logged; the loop goes on.
\<close>

definition cronStep ::
  "runtime \<Rightarrow> int \<Rightarrow> int \<Rightarrow> int \<Rightarrow> string \<Rightarrow> remote \<Rightarrow> store \<Rightarrow> remote \<times> store" where
  "cronStep rt t1 t2 t3 key r s =
     (case configs s key of
        None \<Rightarrow> (r, s)
      | Some (configData, ttl) \<Rightarrow>
          if apiKey configData = [] \<or> formId configData = [] then (r, s)
          else
            (case shouldUpdateNow rt configData t1 s of
               (Inl e, s1) \<Rightarrow> (r, s1)
             | (Inr False, s1) \<Rightarrow> (r, s1)
             | (Inr True, s1) \<Rightarrow>
                 (case updateFormDateLimits rt configData t2 r of
                    (Inl e, r') \<Rightarrow> (r', s1)
                  | (Inr w, r') \<Rightarrow>
                      (r', s1\<lparr>configs :=
                                (configs s1)(key \<mapsto> (configData\<lparr>lastRun := Some t3\<rparr>, None))\<rparr>))))"

section \<open>Calendar dates, as the specification speaks of them\<close>

text \<open>
  A calendar date is a year, a month from 1 to 12 and a day of the month.  Adding whole
  days means stepping to the next (or the previous) date that many times, rolling over
  at the end of a month and of a year.
\<close>

type_synonym civil = "int \<times> int \<times> int"

definition spec_leap_year :: "int \<Rightarrow> bool" where
  "spec_leap_year y = (y mod 4 = 0 \<and> (y mod 100 \<noteq> 0 \<or> y mod 400 = 0))"

definition spec_days_in_month :: "int \<Rightarrow> int \<Rightarrow> int" where
  "spec_days_in_month y m =
     (if m = 2 then (if spec_leap_year y then 29 else 28)
      else if m = 4 \<or> m = 6 \<or> m = 9 \<or> m = 11 then 30
      else 31)"

fun spec_valid_date :: "civil \<Rightarrow> bool" where
  "spec_valid_date (y, m, d) = (1 \<le> m \<and> m \<le> 12 \<and> 1 \<le> d \<and> d \<le> spec_days_in_month y m)"

fun spec_next_day :: "civil \<Rightarrow> civil" where
  "spec_next_day (y, m, d) =
     (if d < spec_days_in_month y m then (y, m, d + 1)
      else if m < 12 then (y, m + 1, 1)
      else (y + 1, 1, 1))"

fun spec_prev_day :: "civil \<Rightarrow> civil" where
  "spec_prev_day (y, m, d) =
     (if 1 < d then (y, m, d - 1)
      else if 1 < m then (y, m - 1, spec_days_in_month y (m - 1))
      else (y - 1, 12, 31))"

definition spec_add_days :: "civil \<Rightarrow> int \<Rightarrow> civil" where
  "spec_add_days c n =
     (if 0 \<le> n then (spec_next_day ^^ nat n) c else (spec_prev_day ^^ nat (- n)) c)"

text \<open>\<open>YYYY-MM-DD\<close>: four digits, two digits, two digits.\<close>

definition spec_digit :: "int \<Rightarrow> char" where
  "spec_digit i = digit_char (nat (i mod 10))"

fun spec_yyyy_mm_dd :: "civil \<Rightarrow> string" where
  "spec_yyyy_mm_dd (y, m, d) =
     [spec_digit (y div 1000), spec_digit (y div 100), spec_digit (y div 10), spec_digit y,
      CHR ''-'', spec_digit (m div 10), spec_digit m,
      CHR ''-'', spec_digit (d div 10), spec_digit d]"

text \<open>
  A wall-clock reading that \<open>toLocaleString\<close> can print and \<open>new Date\<close> reads back: a
  calendar date with a four-digit year and a time of day.
\<close>

definition valid_wallclock :: "wallclock \<Rightarrow> bool" where
  "valid_wallclock w =
     (1000 \<le> wYear w \<and> wYear w \<le> 9999
      \<and> spec_valid_date (wYear w, wMonth w, wDay w)
      \<and> 0 \<le> wHour w \<and> wHour w < 24
      \<and> 0 \<le> wMinute w \<and> wMinute w < 60
      \<and> 0 \<le> wSecond w \<and> wSecond w < 60)"

text \<open>The day number of a calendar date, as \<open>MakeDay\<close> computes it.\<close>

fun dayNumber :: "civil \<Rightarrow> int" where
  "dayNumber (y, m, d) = MakeDay y (m - 1) d"

section \<open>Concrete inputs for the examples below\<close>

text \<open>
  A runtime that knows the zone \<open>America/New_York\<close> only and reads the clock there as
  \<open>now\<close> seconds after midnight of 10 March 2024, and an empty store.
\<close>

definition example_runtime :: runtime where
  "example_runtime =
     \<lparr>toLocale = (\<lambda>zone now.
         if zone = ''America/New_York''
         then Some \<lparr>wYear = 2024, wMonth = 3, wDay = 10,
                     wHour = (now div 3600) mod 24, wMinute = (now div 60) mod 60,
                     wSecond = now mod 60\<rparr>
         else None),
       hashString = (\<lambda>str. str),
       CACHE_VERSION = ''v1''\<rparr>"

definition example_noon :: wallclock where
  "example_noon = \<lparr>wYear = 2024, wMonth = 3, wDay = 10, wHour = 12, wMinute = 0, wSecond = 0\<rparr>"

text \<open>
  A configuration for New York with one managed field, from 30 days ago until today, and
  a date block of the remote form that has no payload yet.
\<close>

definition example_config :: config where
  "example_config =
     \<lparr>apiKey = ''key'', formId = ''form1'', timezone = ''America/New_York'',
       cfg_fields = [(''field1'', \<lparr>enabled = True, minDays = Days (- 30), maxDays = Days 0\<rparr>)],
       lastRun = None, disabled = False, updatedAt = 0\<rparr>"

definition example_block :: block where
  "example_block = \<lparr>block_type = ''INPUT_DATE'', uuid = ''field1'', payload = None, block_rest = []\<rparr>"

text \<open>
  The same configuration with every rule disabled or without offsets, a remote form with
  two date blocks, and a remote service that does not answer.
\<close>

definition disabled_config :: config where
  "disabled_config =
     \<lparr>apiKey = ''key'', formId = ''form1'', timezone = ''America/New_York'',
       cfg_fields = [(''field1'', \<lparr>enabled = False, minDays = Days (- 30), maxDays = Days 0\<rparr>),
                     (''field2'', \<lparr>enabled = True, minDays = Null, maxDays = Null\<rparr>)],
       lastRun = None, disabled = True, updatedAt = 0\<rparr>"

definition example_remote :: remote where
  "example_remote =
     \<lparr>getOk = True, patchOk = True,
       blocks = Some [example_block,
                      \<lparr>block_type = ''INPUT_DATE'', uuid = ''field2'',
                        payload = Some \<lparr>afterDate = Some ''2020-01-01'', beforeDate = None,
                                        payload_rest = []\<rparr>,
                        block_rest = []\<rparr>]\<rparr>"

definition failing_remote :: remote where
  "failing_remote = \<lparr>getOk = False, patchOk = False, blocks = None\<rparr>"

text \<open>
  Save requests: one managed field; every rule disabled; an enabled rule whose offsets
  are absent; and such a rule next to a managed field.
\<close>

definition example_request :: save_request where
  "example_request =
     \<lparr>req_apiKey = ''key'', req_formId = ''form1'', req_timezone = ''America/New_York'',
       req_fields = Some [(''field1'', \<lparr>enabled = True, minDays = Days (- 30), maxDays = Days 0\<rparr>)],
       req_ip = Some ''203.0.113.7''\<rparr>"

definition disabled_request :: save_request where
  "disabled_request =
     \<lparr>req_apiKey = ''key'', req_formId = ''form1'', req_timezone = ''America/New_York'',
       req_fields = Some [(''field1'', \<lparr>enabled = False, minDays = Days (- 30), maxDays = Days 0\<rparr>)],
       req_ip = Some ''203.0.113.7''\<rparr>"

definition absent_request :: save_request where
  "absent_request =
     \<lparr>req_apiKey = ''key'', req_formId = ''form1'', req_timezone = ''America/New_York'',
       req_fields = Some [(''field1'', \<lparr>enabled = True, minDays = Undefined, maxDays = Undefined\<rparr>)],
       req_ip = Some ''203.0.113.7''\<rparr>"

definition mixed_request :: save_request where
  "mixed_request =
     \<lparr>req_apiKey = ''key'', req_formId = ''form1'', req_timezone = ''America/New_York'',
       req_fields = Some [(''field0'', \<lparr>enabled = True, minDays = Undefined, maxDays = Undefined\<rparr>),
                          (''field1'', \<lparr>enabled = True, minDays = Days (- 30), maxDays = Days 0\<rparr>)],
       req_ip = Some ''203.0.113.7''\<rparr>"

definition empty_store :: store where
  "empty_store = \<lparr>configs = Map.empty, metadatas = Map.empty, ratelimits = Map.empty\<rparr>"

text \<open>
  Stores: one where the requester has used up the quota, and one that holds the example
  configuration.
\<close>

definition full_store :: store where
  "full_store =
     empty_store\<lparr>ratelimits := [rateLimitKey example_runtime ''203.0.113.7'' \<mapsto> (5, Some 86400)]\<rparr>"

definition stored_store :: store where
  "stored_store = empty_store\<lparr>configs := [''form1'' \<mapsto> (example_config, None)]\<rparr>"

section \<open>Day numbers and calendar dates\<close>

subsection \<open>Years\<close>

lemma div_succ:
  fixes a k :: int
  assumes k: "0 < k"
  shows "(a + 1) div k = a div k + (if (a + 1) mod k = 0 then 1 else 0)"
proof (cases "a mod k = k - 1")
  case True
  have d: "a = k * (a div k) + a mod k" by simp
  have "k * (a div k + 1) = k * (a div k) + k" by (simp add: algebra_simps)
  with d True have e: "a + 1 = k * (a div k + 1) + 0" by linarith
  have "(a + 1) div k = a div k + 1" by (rule int_div_pos_eq [OF e]) (use k in simp_all)
  moreover have "(a + 1) mod k = 0" by (rule int_mod_pos_eq [OF e]) (use k in simp_all)
  ultimately show ?thesis by simp
next
  case False
  have b: "0 \<le> a mod k" "a mod k < k" using k by simp_all
  have e: "a + 1 = k * (a div k) + (a mod k + 1)" by simp
  have r: "0 \<le> a mod k + 1" "a mod k + 1 < k" using b False by simp_all
  have "(a + 1) div k = a div k" by (rule int_div_pos_eq [OF e r])
  moreover have "(a + 1) mod k = a mod k + 1" by (rule int_mod_pos_eq [OF e r])
  ultimately show ?thesis using b by simp
qed

lemma mod_shift4: "(y - 1968) mod 4 = 0 \<longleftrightarrow> y mod (4::int) = 0"
proof -
  have "(4::int) dvd 1968" by simp
  then show ?thesis by (simp add: mod_eq_0_iff_dvd dvd_diff_left_iff)
qed
lemma mod_shift100: "(y - 1900) mod 100 = 0 \<longleftrightarrow> y mod (100::int) = 0"
proof -
  have "(100::int) dvd 1900" by simp
  then show ?thesis by (simp add: mod_eq_0_iff_dvd dvd_diff_left_iff)
qed
lemma mod_shift400: "(y - 1600) mod 400 = 0 \<longleftrightarrow> y mod (400::int) = 0"
proof -
  have "(400::int) dvd 1600" by simp
  then show ?thesis by (simp add: mod_eq_0_iff_dvd dvd_diff_left_iff)
qed
lemma mod_400_100: 
  assumes "y mod (400::int) = 0" shows "y mod 100 = 0"
proof -
  have a: "(100::int) dvd 400" by simp
  from assms have "400 dvd y" by (simp add: mod_eq_0_iff_dvd)
  with a have "100 dvd y" by (rule dvd_trans)
  then show ?thesis by (simp add: mod_eq_0_iff_dvd)
qed
lemma mod_100_4:
  assumes "y mod (100::int) = 0" shows "y mod 4 = 0"
proof -
  have a: "(4::int) dvd 100" by simp
  from assms have "100 dvd y" by (simp add: mod_eq_0_iff_dvd)
  with a have "4 dvd y" by (rule dvd_trans)
  then show ?thesis by (simp add: mod_eq_0_iff_dvd)
qed

lemma DayFromYear_Suc: "DayFromYear (y + 1) = DayFromYear y + DaysInYear y"
proof -
  have a: "(y - 1968) div 4 = (y - 1969) div 4 + (if y mod 4 = 0 then 1 else 0)"
    using div_succ [of 4 "y - 1969"] by (simp add: mod_shift4)
  have b: "(y - 1900) div 100 = (y - 1901) div 100 + (if y mod 100 = 0 then 1 else 0)"
    using div_succ [of 100 "y - 1901"] by (simp add: mod_shift100)
  have c: "(y - 1600) div 400 = (y - 1601) div 400 + (if y mod 400 = 0 then 1 else 0)"
    using div_succ [of 400 "y - 1601"] by (simp add: mod_shift400)
  show ?thesis
    using mod_400_100 [of y] mod_100_4 [of y]
    by (simp add: DayFromYear_def DaysInYear_def a b c)
qed

lemma DaysInYear_bounds: "365 \<le> DaysInYear y \<and> DaysInYear y \<le> 366"
  by (simp add: DaysInYear_def)

lemma DayFromYear_less_Suc: "DayFromYear y < DayFromYear (y + 1)"
  using DaysInYear_bounds [of y] by (simp add: DayFromYear_Suc)

lemma DayFromYear_mono: "y \<le> y' \<Longrightarrow> DayFromYear y \<le> DayFromYear y'"
proof (induction y' rule: int_ge_induct)
  case base show ?case by simp
next
  case (step i)
  then show ?case using DayFromYear_less_Suc [of i] by simp
qed

lemma DayFromYear_1970: "DayFromYear 1970 = 0"
  by (simp add: DayFromYear_def)

lemma DayFromYear_ge_365: "1970 \<le> y \<Longrightarrow> 365 * (y - 1970) \<le> DayFromYear y"
proof (induction y rule: int_ge_induct)
  case base show ?case by (simp add: DayFromYear_1970)
next
  case (step i)
  then show ?case using DaysInYear_bounds [of i] by (simp add: DayFromYear_Suc)
qed

lemma DayFromYear_ge_366: "y \<le> 1970 \<Longrightarrow> 366 * (y - 1970) \<le> DayFromYear y"
proof (induction y rule: int_le_induct)
  case base show ?case by (simp add: DayFromYear_1970)
next
  case (step i)
  have "DayFromYear i = DayFromYear (i - 1) + DaysInYear (i - 1)"
    using DayFromYear_Suc [of "i - 1"] by simp
  with step show ?case using DaysInYear_bounds [of "i - 1"] by simp
qed

lemma year_upper:
  assumes "DayFromYear y \<le> d"
  shows "y \<le> 1970 + max (d div 365) (d div 366)"
proof (cases "1970 \<le> y")
  case True
  then have "365 * (y - 1970) \<le> d" using DayFromYear_ge_365 [of y] assms by simp
  then have "(365 * (y - 1970)) div 365 \<le> d div 365" by (intro zdiv_mono1) simp_all
  then show ?thesis by simp
next
  case False
  then have "366 * (y - 1970) \<le> d" using DayFromYear_ge_366 [of y] assms by simp
  then have "(366 * (y - 1970)) div 366 \<le> d div 366" by (intro zdiv_mono1) simp_all
  then show ?thesis by simp
qed

lemma year_down_eq:
  assumes "DayFromYear y \<le> d" and "d < DayFromYear (y + 1)" and "y \<le> ub"
  shows "year_down d ub = y"
  using assms(3)
proof (induction "nat (ub - y)" arbitrary: ub)
  case 0
  then have "ub = y" by simp
  then show ?case using assms(1) by (subst year_down.simps) simp
next
  case (Suc k)
  then have lt: "y + 1 \<le> ub" by simp
  have "DayFromYear (y + 1) \<le> DayFromYear ub" using lt by (rule DayFromYear_mono)
  then have "\<not> DayFromYear ub \<le> d" using assms(2) by simp
  then have "year_down d ub = year_down d (ub - 1)" by (subst year_down.simps) simp
  moreover have "year_down d (ub - 1) = y" using Suc lt by (intro Suc.hyps(1)) simp_all
  ultimately show ?case by simp
qed

lemma YearFromDay_eq:
  assumes "DayFromYear y \<le> d" and "d < DayFromYear y + DaysInYear y"
  shows "YearFromDay d = y"
  unfolding YearFromDay_def
  using assms year_upper [OF assms(1)] by (intro year_down_eq) (simp_all add: DayFromYear_Suc)

subsection \<open>Months and days: stepping through the calendar\<close>

lemma leap_iff: "spec_leap_year y \<longleftrightarrow> DaysInYear y = 366"
  by (auto simp: spec_leap_year_def DaysInYear_def)

lemma month_cases:
  assumes "1 \<le> m" "m \<le> (12::int)"
  shows "m = 1 \<or> m = 2 \<or> m = 3 \<or> m = 4 \<or> m = 5 \<or> m = 6 \<or> m = 7 \<or> m = 8 \<or> m = 9 \<or> m = 10 \<or> m = 11 \<or> m = 12"
  using assms by arith

lemma MakeDay_month:
  assumes "1 \<le> m" "m \<le> 12"
  shows "MakeDay y (m - 1) d = DayFromYear y + DaysBeforeMonth y (m - 1) + d - 1"
  using month_cases [OF assms] by (auto simp: MakeDay_def)

lemma DaysBeforeMonth_next:
  assumes "1 \<le> m" "m \<le> 12"
  shows "DaysBeforeMonth y (m - 1) + spec_days_in_month y m
           = (if m = 12 then DaysInYear y else DaysBeforeMonth y m)"
  using month_cases [OF assms] DaysInYear_bounds [of y]
  by (auto simp: DaysBeforeMonth_def spec_days_in_month_def leap_iff)

lemma DaysBeforeMonth_nonneg: "1 \<le> m \<Longrightarrow> m \<le> 12 \<Longrightarrow> 0 \<le> DaysBeforeMonth y (m - 1)"
  by (drule (1) month_cases) (auto simp: DaysBeforeMonth_def)

lemma dayNumber_in_year:
  assumes "spec_valid_date (y, m, d)"
  shows "DayFromYear y \<le> dayNumber (y, m, d) \<and> dayNumber (y, m, d) < DayFromYear y + DaysInYear y"
proof -
  from assms have m: "1 \<le> m" "m \<le> 12" and d: "1 \<le> d" "d \<le> spec_days_in_month y m" by simp_all
  have "DaysBeforeMonth y (m - 1) + spec_days_in_month y m \<le> DaysInYear y"
    using month_cases [OF m] DaysInYear_bounds [of y]
    by (auto simp: DaysBeforeMonth_def spec_days_in_month_def leap_iff)
  then show ?thesis
    using d DaysBeforeMonth_nonneg [OF m, of y] by (simp add: MakeDay_month [OF m])
qed

lemma fields_of_dayNumber:
  assumes v: "spec_valid_date (y, m, d)" and t: "Day t = dayNumber (y, m, d)"
  shows "YearFromTime t = y \<and> MonthFromTime t = m - 1 \<and> DateFromTime t = d"
proof -
  from v have m: "1 \<le> m" "m \<le> 12" and d: "1 \<le> d" "d \<le> spec_days_in_month y m" by simp_all
  have yr: "YearFromTime t = y"
    unfolding YearFromTime_def t using dayNumber_in_year [OF v] by (intro YearFromDay_eq) simp_all
  have dw: "DayWithinYear t = DaysBeforeMonth y (m - 1) + d - 1"
    by (simp add: DayWithinYear_def yr t MakeDay_month [OF m])
  have lp: "InLeapYear t = (if DaysInYear y = 366 then 1 else 0)"
    by (simp add: InLeapYear_def yr)
  have mo: "MonthFromTime t = m - 1"
    unfolding MonthFromTime_def dw lp Let_def
    using month_cases [OF m] d
    by (elim disjE) (auto simp: DaysBeforeMonth_def spec_days_in_month_def leap_iff split: if_splits)
  have da: "DateFromTime t = d"
    unfolding DateFromTime_def mo dw lp Let_def
    using month_cases [OF m]
    by (elim disjE) (simp_all add: DaysBeforeMonth_def)
  show ?thesis using yr mo da by simp
qed

lemma next_day_ok:
  assumes v: "spec_valid_date c"
  shows "spec_valid_date (spec_next_day c) \<and> dayNumber (spec_next_day c) = dayNumber c + 1"
proof -
  obtain y m d where c: "c = (y, m, d)" by (cases c) auto
  from v c have m: "1 \<le> m" "m \<le> 12" and d: "1 \<le> d" "d \<le> spec_days_in_month y m" by simp_all
  have pos: "1 \<le> spec_days_in_month y' m'" for y' m' by (simp add: spec_days_in_month_def)
  show ?thesis
  proof (cases "d < spec_days_in_month y m")
    case True
    then show ?thesis using m d by (simp add: c MakeDay_month)
  next
    case False
    then have de: "d = spec_days_in_month y m" using d by simp
    show ?thesis
    proof (cases "m < 12")
      case True
      then have m1: "1 \<le> m + 1" "m + 1 \<le> 12" using m by simp_all
      have "DaysBeforeMonth y (m + 1 - 1) = DaysBeforeMonth y (m - 1) + spec_days_in_month y m"
        using DaysBeforeMonth_next [OF m, of y] True by simp
      then show ?thesis
        using True False m pos [of y "m + 1"] MakeDay_month [OF m1, of y 1] MakeDay_month [OF m, of y d]
        by (simp add: c de)
    next
      case False
      then have m12: "m = 12" using m by simp
      have "DaysBeforeMonth y (12 - 1) + spec_days_in_month y 12 = DaysInYear y"
        using DaysBeforeMonth_next [of 12 y] by simp
      then show ?thesis
        using MakeDay_month [of 1 "y + 1" 1] MakeDay_month [of 12 y d]
        by (simp add: c de m12 DayFromYear_Suc DaysBeforeMonth_def spec_days_in_month_def)
    qed
  qed
qed

lemma prev_day_ok:
  assumes v: "spec_valid_date c"
  shows "spec_valid_date (spec_prev_day c) \<and> dayNumber (spec_prev_day c) = dayNumber c - 1"
proof -
  obtain y m d where c: "c = (y, m, d)" by (cases c) auto
  from v c have m: "1 \<le> m" "m \<le> 12" and d: "1 \<le> d" "d \<le> spec_days_in_month y m" by simp_all
  have pos: "1 \<le> spec_days_in_month y' m'" for y' m' by (simp add: spec_days_in_month_def)
  show ?thesis
  proof (cases "1 < d")
    case True
    then show ?thesis using m d by (simp add: c MakeDay_month)
  next
    case False
    then have de: "d = 1" using d by simp
    show ?thesis
    proof (cases "1 < m")
      case True
      then have m1: "1 \<le> m - 1" "m - 1 \<le> 12" using m by simp_all
      have "DaysBeforeMonth y (m - 1) = DaysBeforeMonth y (m - 1 - 1) + spec_days_in_month y (m - 1)"
        using DaysBeforeMonth_next [OF m1, of y] True m by simp
      then show ?thesis
        using True m pos [of y "m - 1"]
          MakeDay_month [OF m1, of y "spec_days_in_month y (m - 1)"] MakeDay_month [OF m, of y d]
        by (simp add: c de)
    next
      case False
      then have m1: "m = 1" using m by simp
      have "DaysBeforeMonth (y - 1) (12 - 1) + spec_days_in_month (y - 1) 12 = DaysInYear (y - 1)"
        using DaysBeforeMonth_next [of 12 "y - 1"] by simp
      moreover have "DayFromYear y = DayFromYear (y - 1) + DaysInYear (y - 1)"
        using DayFromYear_Suc [of "y - 1"] by simp
      ultimately show ?thesis
        using MakeDay_month [of 12 "y - 1" 31] MakeDay_month [of 1 y 1]
        by (simp add: c de m1 DaysBeforeMonth_def spec_days_in_month_def)
    qed
  qed
qed

lemma next_days_ok:
  "spec_valid_date c \<Longrightarrow>
     spec_valid_date ((spec_next_day ^^ k) c) \<and> dayNumber ((spec_next_day ^^ k) c) = dayNumber c + int k"
proof (induction k)
  case 0 then show ?case by simp
next
  case (Suc k)
  then show ?case using next_day_ok [of "(spec_next_day ^^ k) c"] by simp
qed

lemma prev_days_ok:
  "spec_valid_date c \<Longrightarrow>
     spec_valid_date ((spec_prev_day ^^ k) c) \<and> dayNumber ((spec_prev_day ^^ k) c) = dayNumber c - int k"
proof (induction k)
  case 0 then show ?case by simp
next
  case (Suc k)
  then show ?case using prev_day_ok [of "(spec_prev_day ^^ k) c"] by simp
qed

lemma add_days_ok:
  assumes "spec_valid_date c"
  shows "spec_valid_date (spec_add_days c n) \<and> dayNumber (spec_add_days c n) = dayNumber c + n"
proof (cases "0 \<le> n")
  case True
  then show ?thesis using next_days_ok [OF assms, of "nat n"] by (simp add: spec_add_days_def)
next
  case False
  then show ?thesis using prev_days_ok [OF assms, of "nat (- n)"] by (simp add: spec_add_days_def)
qed

subsection \<open>Time of day, clipping and formatting\<close>

lemma Day_MakeDate:
  assumes "0 \<le> tod" "tod < msPerDay"
  shows "Day (MakeDate D tod) = D" and "TimeWithinDay (MakeDate D tod) = tod"
proof -
  have e: "MakeDate D tod = msPerDay * D + tod" by (simp add: MakeDate_def)
  show "Day (MakeDate D tod) = D" unfolding Day_def by (rule int_div_pos_eq [OF e assms])
  show "TimeWithinDay (MakeDate D tod) = tod" unfolding TimeWithinDay_def by (rule int_mod_pos_eq [OF e assms])
qed

lemma MakeTime_range:
  assumes "0 \<le> h" "h < 24" "0 \<le> mi" "mi < 60" "0 \<le> s" "s < 60"
  shows "0 \<le> MakeTime h mi s 0 \<and> MakeTime h mi s 0 < msPerDay"
  using assms by (simp add: MakeTime_def msPerDay_def msPerHour_def msPerMinute_def msPerSecond_def)

lemma nat_digits_1: "n < 10 \<Longrightarrow> nat_digits n = [digit_char n]"
  by (subst nat_digits.simps) simp

lemma nat_digits_2: "10 \<le> n \<Longrightarrow> n < 100 \<Longrightarrow> nat_digits n = [digit_char (n div 10), digit_char (n mod 10)]"
  by (subst nat_digits.simps) (simp add: nat_digits_1 del: digit_char.simps)

lemma nat_digits_3:
  assumes "100 \<le> n" "n < 1000"
  shows "nat_digits n = [digit_char (n div 100), digit_char (n div 10 mod 10), digit_char (n mod 10)]"
proof -
  have "n div 10 div 10 = n div 100" using div_mult2_eq [of n 10 10] by simp
  then show ?thesis using assms
    by (subst nat_digits.simps) (simp add: nat_digits_2 del: digit_char.simps)
qed

lemma nat_digits_4:
  assumes "1000 \<le> n" "n < 10000"
  shows "nat_digits n = [digit_char (n div 1000), digit_char (n div 100 mod 10),
                     digit_char (n div 10 mod 10), digit_char (n mod 10)]"
proof -
  have "n div 10 div 100 = n div 1000" "n div 10 div 10 = n div 100"
    using div_mult2_eq [of n 10 100] div_mult2_eq [of n 10 10] by simp_all
  then show ?thesis using assms
    by (subst nat_digits.simps) (simp add: nat_digits_3 del: digit_char.simps)
qed

lemma year_string:
  assumes "1000 \<le> y" "y \<le> 9999"
  shows "int_toString y = [spec_digit (y div 1000), spec_digit (y div 100), spec_digit (y div 10), spec_digit y]"
proof -
  have a: "nat y div 1000 mod 10 = nat y div 1000" using assms by simp
  show ?thesis
    unfolding int_toString_def spec_digit_def
    using assms a by (simp add: nat_digits_4 nat_div_distrib nat_mod_distrib del: digit_char.simps)
qed

lemma two_digits:
  assumes "1 \<le> k" "k \<le> 31"
  shows "padStart0 2 (int_toString k) = [spec_digit (k div 10), spec_digit k]"
proof (cases "k < 10")
  case True
  then have "nat k div 10 = 0" "nat k mod 10 = nat k" using assms by simp_all
  then show ?thesis
    using assms True unfolding int_toString_def spec_digit_def padStart0_def
    by (simp add: nat_digits_1 nat_div_distrib nat_mod_distrib numeral_2_eq_2)
next
  case False
  then have "nat k div 10 mod 10 = nat k div 10" using assms by simp
  then show ?thesis
    using assms False unfolding int_toString_def spec_digit_def padStart0_def
    by (simp add: nat_digits_2 nat_div_distrib nat_mod_distrib del: digit_char.simps)
qed

lemma DayFromYear_1000: "DayFromYear 1000 = - 354285"
  by (simp add: DayFromYear_def)

lemma DayFromYear_10000: "DayFromYear 10000 = 2932897"
  by (simp add: DayFromYear_def)

lemma TimeClip_four_digit_year:
  assumes y: "1000 \<le> y" "y \<le> 9999" and v: "spec_valid_date (y, m, d)"
    and tod: "0 \<le> tod" "tod < msPerDay"
  shows "TimeClip (MakeDate (dayNumber (y, m, d)) tod) = Some (MakeDate (dayNumber (y, m, d)) tod)"
proof -
  define D where "D = dayNumber (y, m, d)"
  have "DayFromYear 1000 \<le> DayFromYear y" using y by (intro DayFromYear_mono) simp
  moreover have "DayFromYear (y + 1) \<le> DayFromYear 10000" using y by (intro DayFromYear_mono) simp
  ultimately have "- 354285 \<le> D" "D < 2932897"
    using dayNumber_in_year [OF v] by (simp_all add: D_def DayFromYear_Suc DayFromYear_1000 DayFromYear_10000)
  then have "\<bar>MakeDate D tod\<bar> \<le> 8640000000000000"
    using tod by (simp add: MakeDate_def msPerDay_def)
  then show ?thesis by (simp add: TimeClip_def D_def)
qed

lemma formatDate_dayNumber:
  assumes y: "1000 \<le> y" "y \<le> 9999" and v: "spec_valid_date (y, m, d)" and t: "Day t = dayNumber (y, m, d)"
  shows "formatDate (Some t) = spec_yyyy_mm_dd (y, m, d)"
proof -
  from v have m: "1 \<le> m" "m \<le> 12" and d: "1 \<le> d" "d \<le> spec_days_in_month y m" by simp_all
  have d31: "d \<le> 31" using d by (simp add: spec_days_in_month_def split: if_splits)
  have m31: "m \<le> 31" using m by simp
  note f = fields_of_dayNumber [OF v t]
  show ?thesis
    using f year_string [OF y] two_digits [OF m(1) m31] two_digits [OF d(1) d31]
    by (simp add: formatDate_def getFullYear_def getMonth_def getDate_def num_add_def String_of_def)
qed

lemma MakeDay_add: "MakeDay y mo (d + n) = MakeDay y mo d + n"
  by (simp add: MakeDay_def Let_def)

lemma computeBoundary_civil:
  assumes w: "valid_wallclock w"
    and y': "1000 \<le> fst (spec_add_days (wYear w, wMonth w, wDay w) n)"
            "fst (spec_add_days (wYear w, wMonth w, wDay w) n) \<le> 9999"
  shows "computeBoundary (parseLocale w) n = spec_yyyy_mm_dd (spec_add_days (wYear w, wMonth w, wDay w) n)"
proof -
  define c where "c = (wYear w, wMonth w, wDay w)"
  define tod where "tod = MakeTime (wHour w) (wMinute w) (wSecond w) 0"
  define t where "t = MakeDate (dayNumber c) tod"
  obtain y2 m2 d2 where c2: "spec_add_days c n = (y2, m2, d2)" by (cases "spec_add_days c n") auto
  from w have v: "spec_valid_date c" and yr: "1000 \<le> wYear w" "wYear w \<le> 9999"
    by (simp_all add: valid_wallclock_def c_def)
  from w have tod: "0 \<le> tod" "tod < msPerDay"
    using MakeTime_range [of "wHour w" "wMinute w" "wSecond w"] by (simp_all add: valid_wallclock_def tod_def)
  have p: "parseLocale w = Some t"
    using TimeClip_four_digit_year [OF yr v [unfolded c_def] tod]
    by (simp add: parseLocale_def t_def c_def tod_def)
  have dt: "Day t = dayNumber c" and tw: "TimeWithinDay t = tod"
    unfolding t_def by (rule Day_MakeDate [OF tod])+
  note f = fields_of_dayNumber [OF v [unfolded c_def] dt [unfolded c_def]]
  note a = add_days_ok [OF v, of n]
  from a c2 have v2: "spec_valid_date (y2, m2, d2)" and dn: "dayNumber (y2, m2, d2) = dayNumber c + n" by simp_all
  from y' c2 have y2: "1000 \<le> y2" "y2 \<le> 9999" by (simp_all add: c_def)
  define t2 where "t2 = MakeDate (dayNumber (y2, m2, d2)) tod"
  have md: "MakeDay (wYear w) (wMonth w - 1) (wDay w + n) = dayNumber (y2, m2, d2)"
    using dn by (simp add: MakeDay_add c_def)
  have s: "setDate (Some t) (num_add (getDate (Some t)) n) = Some t2"
    using f TimeClip_four_digit_year [OF y2 v2 tod]
    by (simp add: setDate_def num_add_def getDate_def md tw t2_def)
  have dt2: "Day t2 = dayNumber (y2, m2, d2)" unfolding t2_def by (rule Day_MakeDate [OF tod])
  show ?thesis
    unfolding computeBoundary_def p s c_def [symmetric] c2
    by (rule formatDate_dayNumber [OF y2 v2 dt2])
qed

subsection \<open>The example reading\<close>

lemma example_noon_valid: "valid_wallclock example_noon"
  by (simp add: valid_wallclock_def example_noon_def spec_days_in_month_def)

lemma example_noon_toLocale:
  "toLocale example_runtime ''America/New_York'' 43200 = Some example_noon"
  by (simp add: example_runtime_def example_noon_def)

lemma example_noon_parse: "parseLocale example_noon = Some 1710072000000"
  by (simp add: parseLocale_def example_noon_def MakeDay_def MakeDate_def MakeTime_def
      DayFromYear_def DaysBeforeMonth_def DaysInYear_def TimeClip_def
      msPerDay_def msPerHour_def msPerMinute_def msPerSecond_def)

lemma example_noon_fields:
  "YearFromTime 1710072000000 = 2024 \<and> MonthFromTime 1710072000000 = 3 - 1
     \<and> DateFromTime 1710072000000 = 10"
proof -
  have v: "spec_valid_date (2024, 3, 10)" by (simp add: spec_days_in_month_def)
  have d: "Day 1710072000000 = dayNumber (2024, 3, 10)"
    by (simp add: Day_def msPerDay_def MakeDay_def DayFromYear_def DaysBeforeMonth_def DaysInYear_def)
  show ?thesis by (rule fields_of_dayNumber [OF v d])
qed

lemma spec_yyyy_mm_dd_length: "length (spec_yyyy_mm_dd c) = 10"
  by (cases c) simp

lemma example_noon_year_10000:
  "computeBoundary (parseLocale example_noon) 2913105 = ''10000-01-01''"
proof -
  have md: "MakeDay 2024 2 2913115 = 2932897"
    by (simp add: MakeDay_def DayFromYear_def DaysBeforeMonth_def DaysInYear_def)
  have v: "spec_valid_date (10000, 1, 1)" by (simp add: spec_days_in_month_def)
  have tw: "TimeWithinDay 1710072000000 = 43200000" by (simp add: TimeWithinDay_def msPerDay_def)
  have dn: "dayNumber (10000, 1, 1) = 2932897"
    by (simp add: MakeDay_def DayFromYear_def DaysBeforeMonth_def DaysInYear_def)
  have s: "setDate (Some 1710072000000) (num_add (getDate (Some 1710072000000)) 2913105)
             = Some (MakeDate 2932897 43200000)"
    using example_noon_fields
    by (simp add: setDate_def num_add_def getDate_def md tw TimeClip_def MakeDate_def msPerDay_def)
  have d: "Day (MakeDate 2932897 43200000) = dayNumber (10000, 1, 1)"
    unfolding dn by (rule Day_MakeDate) (simp_all add: msPerDay_def)
  note f = fields_of_dayNumber [OF v d]
  have y: "int_toString 10000 = ''10000''"
    by (simp add: int_toString_def nat_digits.simps)
  have o: "int_toString 1 = ''1''"
    by (simp add: int_toString_def nat_digits.simps)
  show ?thesis
    unfolding computeBoundary_def example_noon_parse s
    using f by (simp add: formatDate_def getFullYear_def getMonth_def getDate_def num_add_def String_of_def padStart0_def y o)
qed

section \<open>The date limit computer\<close>

text \<open>
  Claim C2, as amended.  Let the local reading of \<open>now\<close> in the zone be a calendar date
  with a four-digit year and a time of day, and let \<open>offsetDays\<close> be any integer, of
  either sign, for which the date \<open>offsetDays\<close> whole days later still has a four-digit
  year.  Then the boundary string is that later date, found by stepping through the
  calendar day by day over the ends of months and years, written \<open>YYYY-MM-DD\<close>.  It
  depends on the reading's year, month and day only: neither the time of day nor the
  zone's rules enter.
\<close>

theorem computeBoundary_calendar_date:
  assumes "toLocale rt zone now = Some w"
    and "valid_wallclock w"
    and "1000 \<le> fst (spec_add_days (wYear w, wMonth w, wDay w) offsetDays)"
    and "fst (spec_add_days (wYear w, wMonth w, wDay w) offsetDays) \<le> 9999"
  shows "tzDate rt zone now = Inr (parseLocale w)
     \<and> computeBoundary (parseLocale w) offsetDays
          = spec_yyyy_mm_dd (spec_add_days (wYear w, wMonth w, wDay w) offsetDays)"
  using assms(1) computeBoundary_civil [OF assms(2-4)] by (simp add: tzDate_def)

theorem computeBoundary_calendar_date_witness:
  "toLocale example_runtime ''America/New_York'' 43200 = Some example_noon
   \<and> valid_wallclock example_noon
   \<and> spec_add_days (2024, 3, 10) (- 70) = (2023, 12, 31)
   \<and> computeBoundary (parseLocale example_noon) (- 70) = ''2023-12-31''"
proof -
  have s: "spec_add_days (wYear example_noon, wMonth example_noon, wDay example_noon) (- 70)
             = (2023, 12, 31)"
    by (simp add: example_noon_def spec_add_days_def eval_nat_numeral spec_days_in_month_def
        spec_leap_year_def)
  have "computeBoundary (parseLocale example_noon) (- 70) = spec_yyyy_mm_dd (2023, 12, 31)"
    using computeBoundary_calendar_date [OF example_noon_toLocale example_noon_valid, of "- 70"]
    by (simp add: s)
  then have "computeBoundary (parseLocale example_noon) (- 70) = ''2023-12-31''"
    by (simp add: spec_digit_def)
  then show ?thesis
    using s example_noon_toLocale example_noon_valid by (simp add: example_noon_def)
qed

text \<open>
  The claim as written, for every integer \<open>offsetDays\<close>, fails: 200000000 days after
  10 March 2024 is beyond the range of a Date, \<open>setDate\<close> leaves an Invalid Date, and
  the boundary is the string \<open>NaN-NaN-NaN\<close>, which is no calendar date.  And 2913105
  days after that date is 1 January 10000, printed with a year of five digits.
\<close>

theorem computeBoundary_every_offset_counterexample:
  "toLocale example_runtime ''America/New_York'' 43200 = Some example_noon
   \<and> valid_wallclock example_noon
   \<and> computeBoundary (parseLocale example_noon) 200000000 = ''NaN-NaN-NaN''
   \<and> computeBoundary (parseLocale example_noon) 200000000
        \<noteq> spec_yyyy_mm_dd
            (spec_add_days (wYear example_noon, wMonth example_noon, wDay example_noon) 200000000)
   \<and> computeBoundary (parseLocale example_noon) 2913105 = ''10000-01-01''
   \<and> computeBoundary (parseLocale example_noon) 2913105
        \<noteq> spec_yyyy_mm_dd
            (spec_add_days (wYear example_noon, wMonth example_noon, wDay example_noon) 2913105)"
proof -
  have "setDate (Some 1710072000000) (num_add (getDate (Some 1710072000000)) 200000000) = None"
    using example_noon_fields
    by (simp add: setDate_def num_add_def getDate_def MakeDay_def MakeDate_def DayFromYear_def
        DaysBeforeMonth_def DaysInYear_def TimeClip_def TimeWithinDay_def msPerDay_def)
  then have n: "computeBoundary (parseLocale example_noon) 200000000 = ''NaN-NaN-NaN''"
    by (simp add: computeBoundary_def example_noon_parse formatDate_def getFullYear_def
        getMonth_def getDate_def num_add_def String_of_def padStart0_def)
  have "length (computeBoundary (parseLocale example_noon) 200000000) = 11"
    by (simp add: n)
  then have a: "computeBoundary (parseLocale example_noon) 200000000 \<noteq> spec_yyyy_mm_dd c" for c
    using spec_yyyy_mm_dd_length [of c] by auto
  have "length (computeBoundary (parseLocale example_noon) 2913105) = 11"
    by (simp add: example_noon_year_10000)
  then have b: "computeBoundary (parseLocale example_noon) 2913105 \<noteq> spec_yyyy_mm_dd c" for c
    using spec_yyyy_mm_dd_length [of c] by auto
  show ?thesis
    using n a b example_noon_year_10000 example_noon_toLocale example_noon_valid by simp
qed

section \<open>The patcher on one block\<close>

lemma setAfterDate_result:
  "afterDate (fst (setAfterDate tzNow (Days n) p)) = Some (computeBoundary tzNow n)
   \<and> beforeDate (fst (setAfterDate tzNow (Days n) p)) = beforeDate p"
  by (simp add: setAfterDate_def Let_def)

lemma setBeforeDate_result:
  "beforeDate (fst (setBeforeDate tzNow (Days n) p)) = Some (computeBoundary tzNow n)
   \<and> afterDate (fst (setBeforeDate tzNow (Days n) p)) = afterDate p"
  by (simp add: setBeforeDate_def Let_def)

lemma updateBlock_both:
  assumes "block_type b = ''INPUT_DATE''"
    and "map_of (cfg_fields cfg) (uuid b) = Some fieldCfg"
    and "enabled fieldCfg" and "minDays fieldCfg = Days lo" and "maxDays fieldCfg = Days hi"
  shows "\<exists>p. payload (fst (updateBlock cfg tzNow b)) = Some p
           \<and> afterDate p = Some (computeBoundary tzNow lo)
           \<and> beforeDate p = Some (computeBoundary tzNow hi)"
  using assms setAfterDate_result [of tzNow lo] setBeforeDate_result [of tzNow hi]
  by (simp add: updateBlock_def hasDays_def Let_def split: prod.splits) (metis fst_conv)

lemma updateBlock_unmanaged: "unmanaged cfg b \<Longrightarrow> updateBlock cfg tzNow b = (b, False)"
  by (auto simp: unmanaged_def fieldRule_def updateBlock_def split: option.splits)

lemma updateBlock_other_type: "block_type b \<noteq> ''INPUT_DATE'' \<Longrightarrow> updateBlock cfg tzNow b = (b, False)"
  by (simp add: updateBlock_def)

lemma updateBlock_keeps:
  "block_type (fst (updateBlock cfg tzNow b)) = block_type b \<and> uuid (fst (updateBlock cfg tzNow b)) = uuid b
   \<and> block_rest (fst (updateBlock cfg tzNow b)) = block_rest b"
  by (simp add: updateBlock_def Let_def split: option.splits prod.splits)

lemma setAfterDate_idem:
  "setAfterDate tzNow off (fst (setAfterDate tzNow off p)) = (fst (setAfterDate tzNow off p), False)"
  by (cases off) (simp_all add: setAfterDate_def Let_def)

lemma setBeforeDate_idem:
  "setBeforeDate tzNow off (fst (setBeforeDate tzNow off p)) = (fst (setBeforeDate tzNow off p), False)"
  by (cases off) (simp_all add: setBeforeDate_def Let_def)

lemma setAfterDate_fixed:
  "setAfterDate tzNow off p = (p, False) \<longleftrightarrow> (\<forall>n. off = Days n \<longrightarrow> afterDate p = Some (computeBoundary tzNow n))"
  by (cases off) (auto simp: setAfterDate_def Let_def)

lemma setBeforeDate_fixed:
  "setBeforeDate tzNow off p = (p, False) \<longleftrightarrow> (\<forall>n. off = Days n \<longrightarrow> beforeDate p = Some (computeBoundary tzNow n))"
  by (cases off) (auto simp: setBeforeDate_def Let_def)

lemma setAfterDate_snd:
  "snd (setAfterDate tzNow off p) \<longleftrightarrow> (\<exists>n. off = Days n \<and> afterDate p \<noteq> Some (computeBoundary tzNow n))"
  by (cases off) (auto simp: setAfterDate_def Let_def)

lemma setBeforeDate_snd:
  "snd (setBeforeDate tzNow off p) \<longleftrightarrow> (\<exists>n. off = Days n \<and> beforeDate p \<noteq> Some (computeBoundary tzNow n))"
  by (cases off) (auto simp: setBeforeDate_def Let_def)

lemma setAfterDate_before: "beforeDate (fst (setAfterDate tzNow off p)) = beforeDate p"
  by (cases off) (simp_all add: setAfterDate_def Let_def)

lemma setBeforeDate_after: "afterDate (fst (setBeforeDate tzNow off p)) = afterDate p"
  by (cases off) (simp_all add: setBeforeDate_def Let_def)

lemma setAfterDate_unchanged: "\<not> snd (setAfterDate tzNow off p) \<Longrightarrow> fst (setAfterDate tzNow off p) = p"
  by (cases off) (auto simp: setAfterDate_def Let_def split: if_splits)

lemma setBeforeDate_unchanged: "\<not> snd (setBeforeDate tzNow off p) \<Longrightarrow> fst (setBeforeDate tzNow off p) = p"
  by (cases off) (auto simp: setBeforeDate_def Let_def split: if_splits)

text \<open>managed block: explicit form\<close>
lemma updateBlock_managed:
  assumes "block_type b = ''INPUT_DATE''" and "fieldRule cfg b = Some fc" and "enabled fc"
    and "hasDays (minDays fc) \<or> hasDays (maxDays fc)"
  shows "updateBlock cfg tzNow b =
     (let p0 = (case payload b of None \<Rightarrow> emptyPayload | Some p \<Rightarrow> p);
          r1 = setAfterDate tzNow (minDays fc) p0;
          r2 = setBeforeDate tzNow (maxDays fc) (fst r1)
      in (b\<lparr>payload := Some (fst r2)\<rparr>, snd r1 \<or> snd r2))"
  using assms by (auto simp: updateBlock_def fieldRule_def Let_def split: prod.splits)

lemma updateBlock_modified_iff:
  "snd (updateBlock cfg tzNow b) \<longleftrightarrow>
     block_type b = ''INPUT_DATE'' \<and>
     (\<exists>fc. fieldRule cfg b = Some fc \<and> enabled fc \<and>
        ((\<exists>n. minDays fc = Days n \<and> remoteAfter b \<noteq> Some (computeBoundary tzNow n))
         \<or> (\<exists>n. maxDays fc = Days n \<and> remoteBefore b \<noteq> Some (computeBoundary tzNow n))))"
proof (cases "block_type b = ''INPUT_DATE''")
  case False
  then show ?thesis by (simp add: updateBlock_other_type)
next
  case True
  show ?thesis
  proof (cases "unmanaged cfg b")
    case True
    then show ?thesis
      by (auto simp: updateBlock_unmanaged unmanaged_def hasDays_def split: option.splits)
  next
    case False
    then obtain fc where fc: "fieldRule cfg b = Some fc" "enabled fc" "hasDays (minDays fc) \<or> hasDays (maxDays fc)"
      by (auto simp: unmanaged_def split: option.splits)
    show ?thesis
      unfolding updateBlock_managed [OF True fc]
      by (cases "payload b")
         (auto simp: Let_def fc True setAfterDate_snd setBeforeDate_snd setAfterDate_before remoteAfter_def remoteBefore_def emptyPayload_def)
  qed
qed

lemma updateBlock_unmodified: "\<not> snd (updateBlock cfg tzNow b) \<Longrightarrow> fst (updateBlock cfg tzNow b) = b"
proof (cases "block_type b = ''INPUT_DATE'' \<and> \<not> unmanaged cfg b")
  case False
  then show ?thesis by (auto simp: updateBlock_other_type updateBlock_unmanaged)
next
  case True
  assume n: "\<not> snd (updateBlock cfg tzNow b)"
  from True obtain fc where fc: "fieldRule cfg b = Some fc" "enabled fc" "hasDays (minDays fc) \<or> hasDays (maxDays fc)"
    by (auto simp: unmanaged_def split: option.splits)
  have bt: "block_type b = ''INPUT_DATE''" using True by simp
  show ?thesis
  proof (cases "payload b")
    case None
    from fc(3) have "snd (updateBlock cfg tzNow b)"
      unfolding updateBlock_managed [OF bt fc]
      by (cases "minDays fc"; cases "maxDays fc")
         (auto simp: Let_def None hasDays_def setAfterDate_snd setBeforeDate_snd setAfterDate_before emptyPayload_def)
    with n show ?thesis by simp
  next
    case (Some p)
    from n have a: "\<not> snd (setAfterDate tzNow (minDays fc) p)"
      unfolding updateBlock_managed [OF bt fc] by (simp add: Let_def Some)
    then have a': "fst (setAfterDate tzNow (minDays fc) p) = p" by (rule setAfterDate_unchanged)
    from n have "\<not> snd (setBeforeDate tzNow (maxDays fc) p)"
      unfolding updateBlock_managed [OF bt fc] by (simp add: Let_def Some a')
    then have b': "fst (setBeforeDate tzNow (maxDays fc) p) = p" by (rule setBeforeDate_unchanged)
    show ?thesis
      unfolding updateBlock_managed [OF bt fc] using Some by (simp add: Let_def a' b')
  qed
qed

lemma updateBlock_idem:
  "updateBlock cfg tzNow (fst (updateBlock cfg tzNow b)) = (fst (updateBlock cfg tzNow b), False)"
proof (cases "block_type b = ''INPUT_DATE'' \<and> \<not> unmanaged cfg b")
  case False
  then show ?thesis by (auto simp: updateBlock_other_type updateBlock_unmanaged)
next
  case True
  then obtain fc where fc: "fieldRule cfg b = Some fc" "enabled fc" "hasDays (minDays fc) \<or> hasDays (maxDays fc)"
    by (auto simp: unmanaged_def split: option.splits)
  have bt: "block_type b = ''INPUT_DATE''" using True by simp
  define b' where "b' = fst (updateBlock cfg tzNow b)"
  have bt': "block_type b' = ''INPUT_DATE''" and fc': "fieldRule cfg b' = Some fc"
    using updateBlock_keeps [of cfg tzNow b] bt fc(1) by (simp_all add: b'_def fieldRule_def)
  define p0 where "p0 = (case payload b of None \<Rightarrow> emptyPayload | Some p \<Rightarrow> p)"
  define p1 where "p1 = fst (setAfterDate tzNow (minDays fc) p0)"
  define p2 where "p2 = fst (setBeforeDate tzNow (maxDays fc) p1)"
  have pb': "b' = b\<lparr>payload := Some p2\<rparr>"
    unfolding b'_def updateBlock_managed [OF bt fc] by (simp add: Let_def p0_def p1_def p2_def)
  have a2: "setAfterDate tzNow (minDays fc) p2 = (p2, False)"
    unfolding setAfterDate_fixed p2_def setBeforeDate_after p1_def
    using setAfterDate_idem [of tzNow "minDays fc" p0] by (simp add: setAfterDate_fixed)
  have b2: "setBeforeDate tzNow (maxDays fc) p2 = (p2, False)"
    unfolding p2_def by (rule setBeforeDate_idem)
  have "updateBlock cfg tzNow b' = (b', False)"
    unfolding updateBlock_managed [OF bt' fc' fc(2,3)]
    by (simp add: Let_def pb' a2 b2)
  then show ?thesis by (simp add: b'_def)
qed

text \<open>
  Claim C9.  For a configuration in the zone \<open>America/New_York\<close> and an enabled field with
  \<open>minDays = -30\<close> and \<open>maxDays = 0\<close>: at every instant whose New York reading is a time of
  day on 10 March 2024, the earliest selectable boundary is \<open>2024-02-09\<close> and the latest
  is \<open>2024-03-10\<close>, and these are the \<open>afterDate\<close> and \<open>beforeDate\<close> the patcher leaves
  in the field's block.
\<close>

theorem new_york_scenario:
  assumes "timezone cfg = ''America/New_York''"
    and "block_type b = ''INPUT_DATE''"
    and "map_of (cfg_fields cfg) (uuid b) = Some fieldCfg"
    and "enabled fieldCfg" and "minDays fieldCfg = Days (- 30)" and "maxDays fieldCfg = Days 0"
    and "toLocale rt (timezone cfg) now = Some w" and "valid_wallclock w"
    and "wYear w = 2024" and "wMonth w = 3" and "wDay w = 10"
  shows "tzDate rt (timezone cfg) now = Inr (parseLocale w)
     \<and> computeBoundary (parseLocale w) (- 30) = ''2024-02-09''
     \<and> computeBoundary (parseLocale w) 0 = ''2024-03-10''
     \<and> (\<exists>p. payload (fst (updateBlock cfg (parseLocale w) b)) = Some p
            \<and> afterDate p = Some ''2024-02-09'' \<and> beforeDate p = Some ''2024-03-10'')"
proof -
  have lo: "spec_add_days (wYear w, wMonth w, wDay w) (- 30) = (2024, 2, 9)"
    using assms(9-11)
    by (simp add: spec_add_days_def eval_nat_numeral spec_days_in_month_def spec_leap_year_def)
  have hi: "spec_add_days (wYear w, wMonth w, wDay w) 0 = (2024, 3, 10)"
    using assms(9-11) by (simp add: spec_add_days_def)
  have a: "computeBoundary (parseLocale w) (- 30) = ''2024-02-09''"
    using computeBoundary_civil [OF assms(8), of "- 30"] by (simp add: lo spec_digit_def)
  have b: "computeBoundary (parseLocale w) 0 = ''2024-03-10''"
    using computeBoundary_civil [OF assms(8), of 0] by (simp add: hi spec_digit_def)
  have t: "tzDate rt (timezone cfg) now = Inr (parseLocale w)"
    using assms(7) by (simp add: tzDate_def)
  show ?thesis
    using t a b updateBlock_both [OF assms(2-6), of "parseLocale w"] by simp
qed

theorem new_york_scenario_witness:
  "tzDate example_runtime (timezone example_config) 43200 = Inr (parseLocale example_noon)
   \<and> computeBoundary (parseLocale example_noon) (- 30) = ''2024-02-09''
   \<and> computeBoundary (parseLocale example_noon) 0 = ''2024-03-10''
   \<and> (\<exists>p. payload (fst (updateBlock example_config (parseLocale example_noon) example_block)) = Some p
          \<and> afterDate p = Some ''2024-02-09'' \<and> beforeDate p = Some ''2024-03-10'')"
proof -
  have z: "timezone example_config = ''America/New_York''"
    by (simp add: example_config_def)
  have bt: "block_type example_block = ''INPUT_DATE''"
    by (simp add: example_block_def)
  have f: "map_of (cfg_fields example_config) (uuid example_block)
             = Some \<lparr>enabled = True, minDays = Days (- 30), maxDays = Days 0\<rparr>"
    by (simp add: example_config_def example_block_def)
  have l: "toLocale example_runtime (timezone example_config) 43200 = Some example_noon"
    using example_noon_toLocale by (simp add: z)
  show ?thesis
    by (rule new_york_scenario [OF z bt f _ _ _ l example_noon_valid])
       (simp_all add: example_noon_def)
qed

section \<open>The patcher on the whole form\<close>

lemma update_result_cases:
  "updateFormDateLimits rt cfg now r =
     (if \<not> getOk r then (Inl FetchFailed, r)
      else case blocks r of None \<Rightarrow> (Inr False, r)
      | Some bs \<Rightarrow>
         (case toLocale rt (timezone cfg) now of None \<Rightarrow> (Inl RangeError, r)
          | Some w \<Rightarrow>
             if list_ex (\<lambda>b. snd (updateBlock cfg (parseLocale w) b)) bs
             then (if patchOk r then (Inr True, r\<lparr>blocks := Some (map (\<lambda>b. fst (updateBlock cfg (parseLocale w) b)) bs)\<rparr>)
                   else (Inl UpdateFailed, r))
             else (Inr False, r)))"
  by (simp add: updateFormDateLimits_def tzDate_def Let_def list_ex_iff comp_def split: option.splits)

lemma update_frame:
  assumes "blocks r = Some bs" and "blocks (snd (updateFormDateLimits rt cfg now r)) = Some bs'"
  shows "length bs' = length bs \<and> (\<forall>i < length bs. unmanaged cfg (bs ! i) \<longrightarrow> bs' ! i = bs ! i)"
  using assms
  by (auto simp: update_result_cases updateBlock_unmanaged split: if_splits option.splits)

lemma all_rules_unmanaged:
  assumes "\<forall>fc \<in> snd ` set (cfg_fields cfg). \<not> enabled fc \<or> (\<not> hasDays (minDays fc) \<and> \<not> hasDays (maxDays fc))"
  shows "unmanaged cfg b"
proof (cases "fieldRule cfg b")
  case None then show ?thesis by (simp add: unmanaged_def)
next
  case (Some fc)
  then have "(uuid b, fc) \<in> set (cfg_fields cfg)" by (auto simp: fieldRule_def dest: map_of_SomeD)
  then have "fc \<in> snd ` set (cfg_fields cfg)" by force
  with assms Some show ?thesis by (auto simp: unmanaged_def)
qed

lemma update_all_unmanaged:
  assumes "\<forall>fc \<in> snd ` set (cfg_fields cfg). \<not> enabled fc \<or> (\<not> hasDays (minDays fc) \<and> \<not> hasDays (maxDays fc))"
  shows "updateFormDateLimits rt cfg now r =
     (if \<not> getOk r then (Inl FetchFailed, r)
      else if blocks r \<noteq> None \<and> toLocale rt (timezone cfg) now = None then (Inl RangeError, r)
      else (Inr False, r))"
  using all_rules_unmanaged [OF assms]
  by (auto simp: update_result_cases updateBlock_unmanaged list_ex_iff split: option.splits)

lemma update_twice:
  assumes "updateFormDateLimits rt cfg now r = (Inr True, r')"
  shows "updateFormDateLimits rt cfg now (r'\<lparr>getOk := g, patchOk := p\<rparr>)
           = (if g then Inr False else Inl FetchFailed, r'\<lparr>getOk := g, patchOk := p\<rparr>)"
proof -
  from assms obtain bs w where g: "getOk r" and bs: "blocks r = Some bs"
    and w: "toLocale rt (timezone cfg) now = Some w"
    and r': "r' = r\<lparr>blocks := Some (map (\<lambda>b. fst (updateBlock cfg (parseLocale w) b)) bs)\<rparr>"
    by (auto simp: update_result_cases split: if_splits option.splits)
  show ?thesis
    by (simp add: update_result_cases r' w list_ex_iff updateBlock_idem)
qed

lemma update_twice_same:
  assumes "updateFormDateLimits rt cfg now r = (Inr True, r')"
  shows "updateFormDateLimits rt cfg now r' = (Inr False, r')"
proof -
  from assms have "getOk r" "r' = r\<lparr>blocks := blocks r'\<rparr>"
    by (auto simp: update_result_cases split: if_splits option.splits)
  then have "r'\<lparr>getOk := True, patchOk := patchOk r'\<rparr> = r'"
    by (cases r, cases r') simp
  then show ?thesis using update_twice [OF assms, where g = True and p = "patchOk r'"] by simp
qed

lemma updateBlock_modified_changes:
  assumes "snd (updateBlock cfg tzNow b)"
  shows "fst (updateBlock cfg tzNow b) \<noteq> b"
proof
  assume "fst (updateBlock cfg tzNow b) = b"
  with updateBlock_idem [of cfg tzNow b] have "updateBlock cfg tzNow b = (b, False)" by simp
  with assms show False by simp
qed

lemma update_written_changes:
  assumes "fst (updateFormDateLimits rt cfg now r) = Inr True"
  shows "blocks (snd (updateFormDateLimits rt cfg now r)) \<noteq> blocks r"
proof -
  from assms obtain bs w where bs: "blocks r = Some bs" and g: "getOk r" and p: "patchOk r"
    and w: "toLocale rt (timezone cfg) now = Some w"
    and ex: "list_ex (\<lambda>b. snd (updateBlock cfg (parseLocale w) b)) bs"
    by (auto simp: update_result_cases split: if_splits option.splits)
  from ex obtain b where b: "b \<in> set bs" "snd (updateBlock cfg (parseLocale w) b)"
    by (auto simp: list_ex_iff)
  have "map (\<lambda>b. fst (updateBlock cfg (parseLocale w) b)) bs \<noteq> bs"
  proof
    assume "map (\<lambda>b. fst (updateBlock cfg (parseLocale w) b)) bs = bs"
    then have "map (\<lambda>b. fst (updateBlock cfg (parseLocale w) b)) bs = map (\<lambda>b. b) bs" by simp
    then have "fst (updateBlock cfg (parseLocale w) b) = b" using b(1) by (simp only: map_eq_conv)
    with updateBlock_modified_changes [OF b(2)] show False by simp
  qed
  then show ?thesis using bs g p w ex by (simp add: update_result_cases)
qed

text \<open>
  Claim C4.  The patcher leaves a date block exactly as it is, and does not count it as
  modified, when the block's field rule is absent, is disabled, or has both \<open>minDays\<close>
  and \<open>maxDays\<close> null.  Whatever the configuration, every block that is not to be
  managed has the same content in the blocks sent back as in the blocks read.  When every
  field rule of the configuration is disabled or fully null, the patcher sends no PATCH
  and the remote form stays as it is, whatever its blocks hold: the result is never
  "written", and it is "not written" whenever the read succeeds and the zone is known.
\<close>

theorem patcher_leaves_unmanaged_fields:
  "(block_type b = ''INPUT_DATE'' \<and>
      (fieldRule cfg b = None
       \<or> (\<exists>fc. fieldRule cfg b = Some fc \<and> (\<not> enabled fc \<or> (minDays fc = Null \<and> maxDays fc = Null))))
     \<longrightarrow> updateBlock cfg tzNow b = (b, False))
   \<and> (\<forall>bs bs'. blocks r = Some bs \<and> blocks (snd (updateFormDateLimits rt cfg now r)) = Some bs'
        \<longrightarrow> length bs' = length bs
            \<and> (\<forall>i < length bs. unmanaged cfg (bs ! i) \<longrightarrow> bs' ! i = bs ! i))
   \<and> ((\<forall>fc \<in> snd ` set (cfg_fields cfg). \<not> enabled fc \<or> (minDays fc = Null \<and> maxDays fc = Null))
        \<longrightarrow> snd (updateFormDateLimits rt cfg now r) = r
            \<and> fst (updateFormDateLimits rt cfg now r) \<noteq> Inr True
            \<and> (getOk r \<and> toLocale rt (timezone cfg) now \<noteq> None
                 \<longrightarrow> fst (updateFormDateLimits rt cfg now r) = Inr False))"
proof -
  have A: "block_type b = ''INPUT_DATE'' \<and>
      (fieldRule cfg b = None
       \<or> (\<exists>fc. fieldRule cfg b = Some fc \<and> (\<not> enabled fc \<or> (minDays fc = Null \<and> maxDays fc = Null))))
     \<longrightarrow> updateBlock cfg tzNow b = (b, False)"
  proof
    assume "block_type b = ''INPUT_DATE'' \<and>
      (fieldRule cfg b = None
       \<or> (\<exists>fc. fieldRule cfg b = Some fc \<and> (\<not> enabled fc \<or> (minDays fc = Null \<and> maxDays fc = Null))))"
    then have "unmanaged cfg b" by (auto simp: unmanaged_def hasDays_def)
    then show "updateBlock cfg tzNow b = (b, False)" by (rule updateBlock_unmanaged)
  qed
  have B: "\<forall>bs bs'. blocks r = Some bs \<and> blocks (snd (updateFormDateLimits rt cfg now r)) = Some bs'
        \<longrightarrow> length bs' = length bs
            \<and> (\<forall>i < length bs. unmanaged cfg (bs ! i) \<longrightarrow> bs' ! i = bs ! i)"
    using update_frame [of r _ rt cfg now] by blast
  have C: "(\<forall>fc \<in> snd ` set (cfg_fields cfg). \<not> enabled fc \<or> (minDays fc = Null \<and> maxDays fc = Null))
        \<longrightarrow> snd (updateFormDateLimits rt cfg now r) = r
            \<and> fst (updateFormDateLimits rt cfg now r) \<noteq> Inr True
            \<and> (getOk r \<and> toLocale rt (timezone cfg) now \<noteq> None
                 \<longrightarrow> fst (updateFormDateLimits rt cfg now r) = Inr False)"
  proof
    assume "\<forall>fc \<in> snd ` set (cfg_fields cfg). \<not> enabled fc \<or> (minDays fc = Null \<and> maxDays fc = Null)"
    then have u: "\<forall>fc \<in> snd ` set (cfg_fields cfg).
                  \<not> enabled fc \<or> (\<not> hasDays (minDays fc) \<and> \<not> hasDays (maxDays fc))"
      by (auto simp: hasDays_def)
    show "snd (updateFormDateLimits rt cfg now r) = r
            \<and> fst (updateFormDateLimits rt cfg now r) \<noteq> Inr True
            \<and> (getOk r \<and> toLocale rt (timezone cfg) now \<noteq> None
                 \<longrightarrow> fst (updateFormDateLimits rt cfg now r) = Inr False)"
      by (simp add: update_all_unmanaged [OF u])
  qed
  show ?thesis by (intro conjI) (rule A, rule B, rule C)
qed

theorem patcher_leaves_unmanaged_fields_witness:
  "getOk example_remote
   \<and> toLocale example_runtime (timezone disabled_config) 43200 \<noteq> None
   \<and> block_type example_block = ''INPUT_DATE''
   \<and> fieldRule disabled_config example_block
        = Some \<lparr>enabled = False, minDays = Days (- 30), maxDays = Days 0\<rparr>
   \<and> updateBlock disabled_config (parseLocale example_noon) example_block = (example_block, False)
   \<and> updateFormDateLimits example_runtime disabled_config 43200 example_remote = (Inr False, example_remote)"
proof -
  have a: "\<forall>fc \<in> snd ` set (cfg_fields disabled_config). \<not> enabled fc \<or> (minDays fc = Null \<and> maxDays fc = Null)"
    by (simp add: disabled_config_def)
  have g: "getOk example_remote" by (simp add: example_remote_def)
  have z: "toLocale example_runtime (timezone disabled_config) 43200 \<noteq> None"
    by (simp add: example_runtime_def disabled_config_def)
  have bt: "block_type example_block = ''INPUT_DATE''" by (simp add: example_block_def)
  have fr: "fieldRule disabled_config example_block
        = Some \<lparr>enabled = False, minDays = Days (- 30), maxDays = Days 0\<rparr>"
    by (simp add: fieldRule_def disabled_config_def example_block_def)
  note t = patcher_leaves_unmanaged_fields [of example_block disabled_config "parseLocale example_noon"
      example_remote example_runtime 43200]
  have u: "updateBlock disabled_config (parseLocale example_noon) example_block = (example_block, False)"
    using t bt fr by simp
  have "snd (updateFormDateLimits example_runtime disabled_config 43200 example_remote) = example_remote
      \<and> fst (updateFormDateLimits example_runtime disabled_config 43200 example_remote) = Inr False"
    using t a g z by blast
  then have "updateFormDateLimits example_runtime disabled_config 43200 example_remote = (Inr False, example_remote)"
    by (simp add: prod_eq_iff)
  then show ?thesis using g z bt fr u by simp
qed

text \<open>
  Claim C3.  The patcher marks a block as modified exactly when its field rule is enabled
  and a boundary computed from an offset differs from the block's current remote value;
  a block not marked is left as it is.  Once a call has written (the PATCH was accepted
  and the remote form holds the blocks sent), a second call with the same instant and
  the same configuration finds nothing to change: it sends no PATCH, returns "not
  written" and leaves the remote form as it is; this holds whatever the gateway answers
  the second time (a failing read throws, and still nothing is written).
\<close>

theorem patcher_idempotent:
  "(snd (updateBlock cfg tzNow b) \<longleftrightarrow>
      block_type b = ''INPUT_DATE'' \<and>
      (\<exists>fc. fieldRule cfg b = Some fc \<and> enabled fc \<and>
         ((\<exists>n. minDays fc = Days n \<and> remoteAfter b \<noteq> Some (computeBoundary tzNow n))
          \<or> (\<exists>n. maxDays fc = Days n \<and> remoteBefore b \<noteq> Some (computeBoundary tzNow n)))))
   \<and> (\<not> snd (updateBlock cfg tzNow b) \<longrightarrow> fst (updateBlock cfg tzNow b) = b)
   \<and> (updateFormDateLimits rt cfg now r = (Inr True, r') \<longrightarrow>
        updateFormDateLimits rt cfg now r' = (Inr False, r')
        \<and> (\<forall>g p. updateFormDateLimits rt cfg now (r'\<lparr>getOk := g, patchOk := p\<rparr>)
                    = (if g then Inr False else Inl FetchFailed, r'\<lparr>getOk := g, patchOk := p\<rparr>)))"
proof (intro conjI impI allI)
  show "snd (updateBlock cfg tzNow b) \<longleftrightarrow>
      block_type b = ''INPUT_DATE'' \<and>
      (\<exists>fc. fieldRule cfg b = Some fc \<and> enabled fc \<and>
         ((\<exists>n. minDays fc = Days n \<and> remoteAfter b \<noteq> Some (computeBoundary tzNow n))
          \<or> (\<exists>n. maxDays fc = Days n \<and> remoteBefore b \<noteq> Some (computeBoundary tzNow n))))"
    by (rule updateBlock_modified_iff)
next
  assume "\<not> snd (updateBlock cfg tzNow b)"
  then show "fst (updateBlock cfg tzNow b) = b" by (rule updateBlock_unmodified)
next
  assume a: "updateFormDateLimits rt cfg now r = (Inr True, r')"
  show "updateFormDateLimits rt cfg now r' = (Inr False, r')" by (rule update_twice_same [OF a])
  fix g p
  show "updateFormDateLimits rt cfg now (r'\<lparr>getOk := g, patchOk := p\<rparr>)
          = (if g then Inr False else Inl FetchFailed, r'\<lparr>getOk := g, patchOk := p\<rparr>)"
    by (rule update_twice [OF a])
qed

lemma example_update_writes:
  "fst (updateFormDateLimits example_runtime example_config 43200 example_remote) = Inr True"
  by (simp add: update_result_cases example_remote_def example_runtime_def example_config_def
      example_block_def updateBlock_modified_iff fieldRule_def remoteAfter_def)

theorem patcher_idempotent_witness:
  "fst (updateFormDateLimits example_runtime example_config 43200 example_remote) = Inr True
   \<and> updateFormDateLimits example_runtime example_config 43200
        (snd (updateFormDateLimits example_runtime example_config 43200 example_remote))
       = (Inr False, snd (updateFormDateLimits example_runtime example_config 43200 example_remote))"
proof -
  have "updateFormDateLimits example_runtime example_config 43200 example_remote
      = (Inr True, snd (updateFormDateLimits example_runtime example_config 43200 example_remote))"
    using example_update_writes by (simp add: prod_eq_iff)
  then show ?thesis
    using patcher_idempotent [of example_config "parseLocale example_noon" example_block
        example_runtime 43200 example_remote
        "snd (updateFormDateLimits example_runtime example_config 43200 example_remote)"]
      example_update_writes
    by blast
qed

section \<open>The quota tracker\<close>

lemma incrementRateLimit_eq:
  "incrementRateLimit rt ip s =
     (if currentCount rt ip s < 5
      then (Inr (), s\<lparr>ratelimits := (ratelimits s)(rateLimitKey rt ip \<mapsto> (currentCount rt ip s + 1, Some 86400))\<rparr>)
      else (Inl RateLimitExceeded, s))"
  by (simp add: incrementRateLimit_def currentCount_def Let_def split: option.splits prod.splits)

lemma currentCount_put: "currentCount rt ip (s\<lparr>ratelimits := (ratelimits s)(rateLimitKey rt ip \<mapsto> (c, t))\<rparr>) = c"
  by (simp add: currentCount_def)

lemma reserveTimes_eq:
  "reserveTimes rt ip n s =
     (replicate (min n (nat (5 - currentCount rt ip s))) (Inr ()) @ replicate (n - nat (5 - currentCount rt ip s)) (Inl RateLimitExceeded),
      if n = 0 \<or> 5 \<le> currentCount rt ip s then s
      else s\<lparr>ratelimits := (ratelimits s)(rateLimitKey rt ip \<mapsto> (min 5 (currentCount rt ip s + int n), Some 86400))\<rparr>)"
proof (induction n arbitrary: s)
  case 0 show ?case by simp
next
  case (Suc n)
  define c where "c = currentCount rt ip s"
  show ?case
  proof (cases "c < 5")
    case True
    define s1 where "s1 = s\<lparr>ratelimits := (ratelimits s)(rateLimitKey rt ip \<mapsto> (c + 1, Some 86400))\<rparr>"
    have c1: "currentCount rt ip s1 = c + 1" unfolding s1_def by (rule currentCount_put)
    have i: "incrementRateLimit rt ip s = (Inr (), s1)"
      using True by (simp add: incrementRateLimit_eq s1_def c_def)
    have r: "reserveTimes rt ip (Suc n) s = (Inr () # fst (reserveTimes rt ip n s1), snd (reserveTimes rt ip n s1))"
      by (simp add: i split: prod.splits)
    have m: "min (Suc n) (nat (5 - c)) = Suc (min n (nat (5 - (c + 1))))"
      using True unfolding min_def by (cases "n \<le> nat (4 - c)") (simp_all, linarith+)
    have d: "Suc n - nat (5 - c) = n - nat (5 - (c + 1))"
      using True by simp
    have st: "snd (reserveTimes rt ip n s1) = s\<lparr>ratelimits := (ratelimits s)(rateLimitKey rt ip \<mapsto> (min 5 (c + int (Suc n)), Some 86400))\<rparr>"
    proof (cases "n = 0 \<or> 5 \<le> c + 1")
      case True
      with \<open>c < 5\<close> have "min 5 (c + int (Suc n)) = c + 1" by auto
      with True show ?thesis by (simp add: Suc.IH c1) (simp add: s1_def)
    next
      case False
      then show ?thesis by (simp add: Suc.IH c1) (simp add: s1_def add.assoc)
    qed
    show ?thesis
      unfolding r c_def [symmetric] m d st using True
      by (simp add: Suc.IH c1)
  next
    case False
    then have z: "nat (5 - c) = 0" by simp
    have i: "incrementRateLimit rt ip s = (Inl RateLimitExceeded, s)"
      using False by (simp add: incrementRateLimit_eq c_def)
    have r: "reserveTimes rt ip (Suc n) s = (Inl RateLimitExceeded # fst (reserveTimes rt ip n s), snd (reserveTimes rt ip n s))"
      by (simp add: i split: prod.splits)
    show ?thesis unfolding r c_def [symmetric] z using False
      by (simp add: Suc.IH c_def [symmetric] z replicate_append_same)
  qed
qed

lemma checkRateLimit_eq: "checkRateLimit rt ip s = (ratelimits s (rateLimitKey rt ip) = None \<or> currentCount rt ip s < 5, s)"
  by (auto simp: checkRateLimit_def currentCount_def split: option.splits)

lemma checkRateLimit_iterate: "((\<lambda>s. snd (checkRateLimit rt ip s)) ^^ n) s = s"
  by (induction n) (simp_all add: checkRateLimit_eq)

text \<open>
  Claim C5.  A reservation (\<open>incrementRateLimit\<close>) succeeds exactly when the requester's
  counter is below 5, and then stores the counter plus one with a one-day expiry; at 5 or
  above it throws and leaves the store as it was.  Starting without a counter, of \<open>n\<close>
  reservations in a row the first five succeed and every later one is rejected.  The
  read-only check (\<open>checkRateLimit\<close>) answers true iff there is no counter or it is below
  5, and the store is the same after any number of checks.
\<close>

theorem quota_reserve_and_check:
  "incrementRateLimit rt ip s =
     (if currentCount rt ip s < 5
      then (Inr (), s\<lparr>ratelimits :=
                        (ratelimits s)(rateLimitKey rt ip \<mapsto> (currentCount rt ip s + 1, Some 86400))\<rparr>)
      else (Inl RateLimitExceeded, s))
   \<and> (ratelimits s (rateLimitKey rt ip) = None \<longrightarrow>
        fst (reserveTimes rt ip n s)
          = replicate (min n 5) (Inr ()) @ replicate (n - 5) (Inl RateLimitExceeded))
   \<and> fst (checkRateLimit rt ip s)
        = (ratelimits s (rateLimitKey rt ip) = None \<or> currentCount rt ip s < 5)
   \<and> ((\<lambda>s'. snd (checkRateLimit rt ip s')) ^^ k) s = s"
proof (intro conjI impI)
  show "incrementRateLimit rt ip s =
     (if currentCount rt ip s < 5
      then (Inr (), s\<lparr>ratelimits :=
                        (ratelimits s)(rateLimitKey rt ip \<mapsto> (currentCount rt ip s + 1, Some 86400))\<rparr>)
      else (Inl RateLimitExceeded, s))"
    by (rule incrementRateLimit_eq)
next
  assume "ratelimits s (rateLimitKey rt ip) = None"
  then have "currentCount rt ip s = 0" by (simp add: currentCount_def)
  then show "fst (reserveTimes rt ip n s)
          = replicate (min n 5) (Inr ()) @ replicate (n - 5) (Inl RateLimitExceeded)"
    by (simp add: reserveTimes_eq)
next
  show "fst (checkRateLimit rt ip s)
        = (ratelimits s (rateLimitKey rt ip) = None \<or> currentCount rt ip s < 5)"
    by (simp add: checkRateLimit_eq)
next
  show "((\<lambda>s'. snd (checkRateLimit rt ip s')) ^^ k) s = s"
    by (rule checkRateLimit_iterate)
qed

theorem quota_reserve_and_check_witness:
  "ratelimits empty_store (rateLimitKey example_runtime ''203.0.113.7'') = None
   \<and> fst (reserveTimes example_runtime ''203.0.113.7'' 6 empty_store)
        = [Inr (), Inr (), Inr (), Inr (), Inr (), Inl RateLimitExceeded]
   \<and> fst (checkRateLimit example_runtime ''203.0.113.7'' empty_store)"
proof -
  have h: "ratelimits empty_store (rateLimitKey example_runtime ''203.0.113.7'') = None"
    by (simp add: empty_store_def)
  have six: "replicate (min 6 5) (Inr ()) @ replicate (6 - 5) (Inl RateLimitExceeded)
      = [Inr (), Inr (), Inr (), Inr (), Inr (), Inl RateLimitExceeded :: error + unit]"
    by (simp add: numeral_eq_Suc)
  show ?thesis
    using quota_reserve_and_check [of example_runtime "''203.0.113.7''" empty_store 6 0] h six
    by simp
qed

section \<open>The scheduling decision\<close>

lemma HourFromTime_MakeDate:
  assumes "0 \<le> h" "h < 24" "0 \<le> mi" "mi < 60" "0 \<le> s" "s < 60"
  shows "HourFromTime (MakeDate D (MakeTime h mi s 0)) = h"
proof -
  define rest where "rest = mi * 60000 + s * 1000"
  have r: "0 \<le> rest" "rest < 3600000" using assms by (simp_all add: rest_def)
  have e: "MakeDate D (MakeTime h mi s 0) = 3600000 * (24 * D + h) + rest"
    by (simp add: MakeDate_def MakeTime_def msPerDay_def msPerHour_def msPerMinute_def msPerSecond_def rest_def)
  have "MakeDate D (MakeTime h mi s 0) div 3600000 = 24 * D + h"
    by (rule int_div_pos_eq [OF e r])
  moreover have "(24 * D + h) mod 24 = h"
    by (rule int_mod_pos_eq [OF refl assms(1,2)])
  ultimately show ?thesis by (simp add: HourFromTime_def msPerHour_def)
qed

lemma todayDate_formatDate: "todayDate d = formatDate d"
  by (simp add: todayDate_def formatDate_def Let_def)

lemma parseLocale_valid:
  assumes w: "valid_wallclock w"
  shows "\<exists>t. parseLocale w = Some t \<and> Day t = dayNumber (wYear w, wMonth w, wDay w)
           \<and> HourFromTime t = wHour w"
proof -
  define tod where "tod = MakeTime (wHour w) (wMinute w) (wSecond w) 0"
  from w have v: "spec_valid_date (wYear w, wMonth w, wDay w)" and yr: "1000 \<le> wYear w" "wYear w \<le> 9999"
    and hms: "0 \<le> wHour w" "wHour w < 24" "0 \<le> wMinute w" "wMinute w < 60" "0 \<le> wSecond w" "wSecond w < 60"
    by (simp_all add: valid_wallclock_def)
  have tod: "0 \<le> tod" "tod < msPerDay"
    using MakeTime_range [OF hms] by (simp_all add: tod_def)
  have p: "parseLocale w = Some (MakeDate (dayNumber (wYear w, wMonth w, wDay w)) tod)"
    using TimeClip_four_digit_year [OF yr v tod] by (simp add: parseLocale_def tod_def)
  show ?thesis
    using p Day_MakeDate(1) [OF tod] HourFromTime_MakeDate [OF hms] by (simp add: tod_def)
qed

lemma local_date_and_hour:
  assumes w: "valid_wallclock w"
  shows "todayDate (parseLocale w) = spec_yyyy_mm_dd (wYear w, wMonth w, wDay w)"
    and "getHours (parseLocale w) = Some (wHour w)"
proof -
  from parseLocale_valid [OF w] obtain t where t: "parseLocale w = Some t"
    "Day t = dayNumber (wYear w, wMonth w, wDay w)" "HourFromTime t = wHour w" by blast
  from w have v: "spec_valid_date (wYear w, wMonth w, wDay w)" and yr: "1000 \<le> wYear w" "wYear w \<le> 9999"
    by (simp_all add: valid_wallclock_def)
  show "todayDate (parseLocale w) = spec_yyyy_mm_dd (wYear w, wMonth w, wDay w)"
    unfolding todayDate_formatDate t(1) by (rule formatDate_dayNumber [OF yr v t(2)])
  show "getHours (parseLocale w) = Some (wHour w)"
    by (simp add: t(1) getHours_def t(3))
qed

lemma shouldUpdateNow_valid:
  assumes "\<not> disabled cfg" and "toLocale rt (timezone cfg) now = Some w" and "valid_wallclock w"
  shows "shouldUpdateNow rt cfg now s =
     (if handled s (hashString rt (formId cfg)) (spec_yyyy_mm_dd (wYear w, wMonth w, wDay w)) (wHour w)
      then (Inr False, s)
      else (Inr True,
            s\<lparr>metadatas := (metadatas s)(hashString rt (formId cfg) \<mapsto>
                 (\<lparr>lastUpdateHour = Some (wHour w),
                   lastUpdateDate = spec_yyyy_mm_dd (wYear w, wMonth w, wDay w),
                   meta_timezone = timezone cfg\<rparr>, Some 86400))\<rparr>))"
  using assms(1,2) local_date_and_hour [OF assms(3)]
  by (auto simp: shouldUpdateNow_def tzDate_def Let_def handled_def num_strict_eq_def
      split: option.splits prod.splits)

lemma handled_after:
  assumes "\<not> disabled cfg" and "toLocale rt (timezone cfg) now = Some w" and "valid_wallclock w"
  shows "handled (snd (shouldUpdateNow rt cfg now s)) (hashString rt (formId cfg))
           (spec_yyyy_mm_dd (wYear w, wMonth w, wDay w)) (wHour w)"
  by (simp add: shouldUpdateNow_valid [OF assms]) (simp add: handled_def)

lemma decideAll_handled:
  assumes d: "\<not> disabled cfg"
    and h: "handled s (hashString rt (formId cfg)) (spec_yyyy_mm_dd (y, m, dd)) hr"
    and all: "\<forall>now \<in> set nows. \<exists>w. toLocale rt (timezone cfg) now = Some w \<and> valid_wallclock w
                 \<and> wYear w = y \<and> wMonth w = m \<and> wDay w = dd \<and> wHour w = hr"
  shows "decideAll rt cfg nows s = (replicate (length nows) (Inr False), s)"
  using all
proof (induction nows)
  case Nil show ?case by simp
next
  case (Cons now nows)
  then obtain w where w: "toLocale rt (timezone cfg) now = Some w" "valid_wallclock w"
    "wYear w = y" "wMonth w = m" "wDay w = dd" "wHour w = hr" by auto
  have "shouldUpdateNow rt cfg now s = (Inr False, s)"
    using h by (simp add: shouldUpdateNow_valid [OF d w(1,2)] w)
  then show ?case using Cons by simp
qed

lemma decideAll_once:
  assumes d: "\<not> disabled cfg"
    and all: "\<forall>now \<in> set nows. \<exists>w. toLocale rt (timezone cfg) now = Some w \<and> valid_wallclock w
                 \<and> wYear w = y \<and> wMonth w = m \<and> wDay w = dd \<and> wHour w = hr"
  shows "length (filter (\<lambda>x. x = Inr True) (fst (decideAll rt cfg nows s))) \<le> 1"
proof (cases nows)
  case Nil then show ?thesis by simp
next
  case (Cons now rest)
  with all obtain w where w: "toLocale rt (timezone cfg) now = Some w" "valid_wallclock w"
    "wYear w = y" "wMonth w = m" "wDay w = dd" "wHour w = hr" by auto
  define s1 where "s1 = snd (shouldUpdateNow rt cfg now s)"
  have h: "handled s1 (hashString rt (formId cfg)) (spec_yyyy_mm_dd (y, m, dd)) hr"
    using handled_after [OF d w(1,2), of s] by (simp add: s1_def w)
  have r: "\<forall>now \<in> set rest. \<exists>w. toLocale rt (timezone cfg) now = Some w \<and> valid_wallclock w
                 \<and> wYear w = y \<and> wMonth w = m \<and> wDay w = dd \<and> wHour w = hr"
    using all Cons by simp
  have "decideAll rt cfg rest s1 = (replicate (length rest) (Inr False), s1)"
    by (rule decideAll_handled [OF d h r])
  then have "fst (decideAll rt cfg nows s) = fst (shouldUpdateNow rt cfg now s) # replicate (length rest) (Inr False)"
    by (cases "shouldUpdateNow rt cfg now s") (simp add: Cons s1_def)
  then show ?thesis by simp
qed

lemma cronStep_metadata:
  assumes "configs s key = Some (cfg, ttl)" and "apiKey cfg \<noteq> []" and "formId cfg \<noteq> []"
  shows "metadatas (snd (cronStep rt t1 t2 t3 key r s)) = metadatas (snd (shouldUpdateNow rt cfg t1 s))"
  using assms
  by (auto simp: cronStep_def split: prod.splits sum.splits bool.splits)

lemma shouldUpdateNow_disabled: "disabled cfg \<Longrightarrow> shouldUpdateNow rt cfg now s = (Inr False, s)"
  by (simp add: shouldUpdateNow_def)

lemma shouldUpdateNow_unknown_zone:
  "\<not> disabled cfg \<Longrightarrow> toLocale rt (timezone cfg) now = None \<Longrightarrow> shouldUpdateNow rt cfg now s = (Inl RangeError, s)"
  by (simp add: shouldUpdateNow_def tzDate_def)

text \<open>
  Claim C1, as amended.  For a configuration that is not disabled, in a zone the runtime
  knows, at an instant \<open>now\<close> with a well-formed local reading: the decision is "not due",
  with the store untouched, when the stored run metadata records the local date and the
  local hour of \<open>now\<close>; otherwise it is "due", and the store then holds new metadata with
  that hour and date (expiring after a day).  The tick keeps this metadata whatever the
  patcher does afterwards.  Hence of the decisions at \<open>now\<close> and at any later instants
  whose local date and hour are those of \<open>now\<close>, taken one after the other, at most one
  is "due".
\<close>

theorem scheduling_once_per_local_hour:
  assumes "\<not> disabled cfg"
    and "toLocale rt (timezone cfg) now = Some w" and "valid_wallclock w"
  shows "shouldUpdateNow rt cfg now s =
      (if handled s (hashString rt (formId cfg)) (spec_yyyy_mm_dd (wYear w, wMonth w, wDay w)) (wHour w)
       then (Inr False, s)
       else (Inr True,
             s\<lparr>metadatas := (metadatas s)(hashString rt (formId cfg) \<mapsto>
                  (\<lparr>lastUpdateHour = Some (wHour w),
                    lastUpdateDate = spec_yyyy_mm_dd (wYear w, wMonth w, wDay w),
                    meta_timezone = timezone cfg\<rparr>, Some 86400))\<rparr>))
     \<and> (configs s key = Some (cfg, ttl) \<and> apiKey cfg \<noteq> [] \<and> formId cfg \<noteq> []
          \<longrightarrow> metadatas (snd (cronStep rt now t2 t3 key r s))
                = metadatas (snd (shouldUpdateNow rt cfg now s)))
     \<and> ((\<forall>now' \<in> set nows. \<exists>w'. toLocale rt (timezone cfg) now' = Some w' \<and> valid_wallclock w'
              \<and> wYear w' = wYear w \<and> wMonth w' = wMonth w \<and> wDay w' = wDay w \<and> wHour w' = wHour w)
          \<longrightarrow> length (filter (\<lambda>x. x = Inr True) (fst (decideAll rt cfg (now # nows) s))) \<le> 1)"
proof -
  have C: "(\<forall>now' \<in> set nows. \<exists>w'. toLocale rt (timezone cfg) now' = Some w' \<and> valid_wallclock w'
              \<and> wYear w' = wYear w \<and> wMonth w' = wMonth w \<and> wDay w' = wDay w \<and> wHour w' = wHour w)
          \<longrightarrow> length (filter (\<lambda>x. x = Inr True) (fst (decideAll rt cfg (now # nows) s))) \<le> 1"
  proof
    assume a: "\<forall>now' \<in> set nows. \<exists>w'. toLocale rt (timezone cfg) now' = Some w' \<and> valid_wallclock w'
              \<and> wYear w' = wYear w \<and> wMonth w' = wMonth w \<and> wDay w' = wDay w \<and> wHour w' = wHour w"
    have "\<forall>now' \<in> set (now # nows). \<exists>w'. toLocale rt (timezone cfg) now' = Some w' \<and> valid_wallclock w'
              \<and> wYear w' = wYear w \<and> wMonth w' = wMonth w \<and> wDay w' = wDay w \<and> wHour w' = wHour w"
      using a assms(2,3) by simp
    then show "length (filter (\<lambda>x. x = Inr True) (fst (decideAll rt cfg (now # nows) s))) \<le> 1"
      by (rule decideAll_once [OF assms(1)])
  qed
  show ?thesis
    using shouldUpdateNow_valid [OF assms, of s] cronStep_metadata [of s key cfg ttl rt now t2 t3 r] C
    by blast
qed

theorem scheduling_once_per_local_hour_witness:
  "fst (shouldUpdateNow example_runtime example_config 43200 stored_store) = Inr True
   \<and> metadatas (snd (cronStep example_runtime 43200 43201 43202 ''form1'' failing_remote stored_store))
        ''form1''
       = Some (\<lparr>lastUpdateHour = Some 12, lastUpdateDate = ''2024-03-10'',
                 meta_timezone = ''America/New_York''\<rparr>, Some 86400)
   \<and> length (filter (\<lambda>x. x = Inr True)
        (fst (decideAll example_runtime example_config [43200, 43260] stored_store))) \<le> 1"
proof -
  have d: "\<not> disabled example_config" by (simp add: example_config_def)
  have l: "toLocale example_runtime (timezone example_config) 43200 = Some example_noon"
    using example_noon_toLocale by (simp add: example_config_def)
  have n: "\<not> handled stored_store (hashString example_runtime (formId example_config))
      (spec_yyyy_mm_dd (wYear example_noon, wMonth example_noon, wDay example_noon)) (wHour example_noon)"
    by (simp add: handled_def stored_store_def empty_store_def)
  have c: "configs stored_store ''form1'' = Some (example_config, None)
      \<and> apiKey example_config \<noteq> [] \<and> formId example_config \<noteq> []"
    by (simp add: stored_store_def example_config_def)
  have later: "\<forall>now' \<in> set [43260]. \<exists>w'. toLocale example_runtime (timezone example_config) now' = Some w'
      \<and> valid_wallclock w' \<and> wYear w' = wYear example_noon \<and> wMonth w' = wMonth example_noon
      \<and> wDay w' = wDay example_noon \<and> wHour w' = wHour example_noon"
    by (simp add: example_runtime_def example_config_def example_noon_def valid_wallclock_def
        spec_days_in_month_def)
  note t = scheduling_once_per_local_hour [OF d l example_noon_valid, of stored_store "''form1''" None
      43201 43202 failing_remote "[43260]"]
  have k: "hashString example_runtime (formId example_config) = ''form1''"
    by (simp add: example_runtime_def example_config_def)
  have dt: "spec_yyyy_mm_dd (wYear example_noon, wMonth example_noon, wDay example_noon) = ''2024-03-10''"
    by (simp add: example_noon_def spec_digit_def)
  have h12: "wHour example_noon = 12" by (simp add: example_noon_def)
  have tz: "timezone example_config = ''America/New_York''" by (simp add: example_config_def)
  have A: "shouldUpdateNow example_runtime example_config 43200 stored_store =
      (Inr True,
       stored_store\<lparr>metadatas := (metadatas stored_store)(''form1'' \<mapsto>
          (\<lparr>lastUpdateHour = Some 12, lastUpdateDate = ''2024-03-10'',
            meta_timezone = ''America/New_York''\<rparr>, Some 86400))\<rparr>)"
    using conjunct1 [OF t] n unfolding k dt h12 tz by simp
  have B: "metadatas (snd (cronStep example_runtime 43200 43201 43202 ''form1'' failing_remote stored_store))
      = metadatas (snd (shouldUpdateNow example_runtime example_config 43200 stored_store))"
    using t c by blast
  have C: "length (filter (\<lambda>x. x = Inr True)
        (fst (decideAll example_runtime example_config [43200, 43260] stored_store))) \<le> 1"
    using t later by blast
  show ?thesis using C by (simp add: B A)
qed

text \<open>
  The claim as written, for every configuration, fails: a disabled configuration is
  "not due" although no metadata is stored, and nothing is persisted; and for a zone the
  runtime does not know the decision throws instead of answering.
\<close>

theorem scheduling_every_configuration_counterexample:
  "disabled (example_config\<lparr>disabled := True\<rparr>)
   \<and> metadatas empty_store (hashString example_runtime (formId (example_config\<lparr>disabled := True\<rparr>)))
       = None
   \<and> shouldUpdateNow example_runtime (example_config\<lparr>disabled := True\<rparr>) 43200 empty_store
       = (Inr False, empty_store)
   \<and> shouldUpdateNow example_runtime (example_config\<lparr>timezone := ''Mars/Olympus_Mons''\<rparr>) 43200
        empty_store
       = (Inl RangeError, empty_store)"
  by (simp add: shouldUpdateNow_def empty_store_def tzDate_def example_runtime_def example_config_def)

section \<open>Saving a configuration\<close>

lemma handleSaveConfig_eq:
  "handleSaveConfig rt req t1 t2 r s =
     (let key = hashString rt (req_formId req);
          s1 = (if configs s key = None then snd (incrementRateLimit rt (clientIP req) s) else s)
      in if req_apiKey req = [] \<or> req_formId req = [] \<or> req_timezone req = []
         then (jsonResponse (ErrorBody ''Missing required fields'') 400, r, s)
         else if configs s key = None \<and> 5 \<le> currentCount rt (clientIP req) s
         then (jsonResponse (ErrorBody (message RateLimitExceeded)) 500, r, s)
         else (case req_fields req of
                 None \<Rightarrow> (jsonResponse (ErrorBody (message TypeError)) 500, r, s1)
               | Some fs \<Rightarrow>
                   if \<not> hasActiveFields fs
                   then (jsonResponse Success 200, r,
                         s1\<lparr>configs := (configs s1)(key \<mapsto> (buildConfig req fs t1, Some 259200))\<rparr>)
                   else (jsonResponse Success 200,
                         snd (updateFormDateLimits rt (buildConfig req fs t1) t2 r),
                         s1\<lparr>configs := (configs s1)(key \<mapsto> (buildConfig req fs t1, None))\<rparr>)))"
  by (auto simp: handleSaveConfig_def Let_def incrementRateLimit_eq split: option.splits prod.splits sum.splits)

lemma quota_response_only_for_quota:
  assumes "fst (handleSaveConfig rt req t1 t2 r s) = jsonResponse (ErrorBody (message RateLimitExceeded)) 500"
  shows "req_apiKey req \<noteq> [] \<and> req_formId req \<noteq> [] \<and> req_timezone req \<noteq> []
     \<and> configs s (hashString rt (req_formId req)) = None \<and> 5 \<le> currentCount rt (clientIP req) s"
  using assms
  by (auto simp: handleSaveConfig_eq Let_def jsonResponse_def split: option.splits if_splits)

lemma hasActiveFields_iff:
  "hasActiveFields fs \<longleftrightarrow> (\<exists>fc \<in> snd ` set fs. enabled fc \<and> (minDays fc \<noteq> Null \<or> maxDays fc \<noteq> Null))"
  by (force simp: hasActiveFields_def list_ex_iff)

lemma configs_after_reserve:
  "configs (snd (incrementRateLimit rt ip s)) = configs s"
  by (simp add: incrementRateLimit_eq)

text \<open>
  Claim C6.  A save request with its required fields, for a form that has no stored
  configuration, from a requester whose counter is at 5 or above, is answered with the
  error \<open>Rate limit exceeded. You can only configure 5 forms per day.\<close>; neither the store
  (configurations, counters, metadata) nor the remote form changes.  The handler gives
  this answer in no other case, so it tells the user that the quota is the reason.
\<close>

theorem save_rejected_when_quota_used_up:
  assumes "req_apiKey req \<noteq> []" and "req_formId req \<noteq> []" and "req_timezone req \<noteq> []"
    and "configs s (hashString rt (req_formId req)) = None"
    and "5 \<le> currentCount rt (clientIP req) s"
  shows "handleSaveConfig rt req t1 t2 r s
           = (jsonResponse (ErrorBody ''Rate limit exceeded. You can only configure 5 forms per day.'') 500, r, s)
     \<and> (\<forall>req' t1' t2' r' s'.
           fst (handleSaveConfig rt req' t1' t2' r' s')
             = jsonResponse (ErrorBody ''Rate limit exceeded. You can only configure 5 forms per day.'') 500
           \<longrightarrow> configs s' (hashString rt (req_formId req')) = None
               \<and> 5 \<le> currentCount rt (clientIP req') s')"
proof
  show "handleSaveConfig rt req t1 t2 r s
           = (jsonResponse (ErrorBody ''Rate limit exceeded. You can only configure 5 forms per day.'') 500, r, s)"
    using assms by (simp add: handleSaveConfig_eq)
  show "\<forall>req' t1' t2' r' s'.
           fst (handleSaveConfig rt req' t1' t2' r' s')
             = jsonResponse (ErrorBody ''Rate limit exceeded. You can only configure 5 forms per day.'') 500
           \<longrightarrow> configs s' (hashString rt (req_formId req')) = None
               \<and> 5 \<le> currentCount rt (clientIP req') s'"
    using quota_response_only_for_quota [of rt] by simp
qed

theorem save_rejected_when_quota_used_up_witness:
  "configs full_store (hashString example_runtime (req_formId example_request)) = None
   \<and> currentCount example_runtime (clientIP example_request) full_store = 5
   \<and> handleSaveConfig example_runtime example_request 0 43200 example_remote full_store
       = (jsonResponse (ErrorBody ''Rate limit exceeded. You can only configure 5 forms per day.'') 500,
          example_remote, full_store)"
proof -
  have a: "req_apiKey example_request \<noteq> []" "req_formId example_request \<noteq> []"
    "req_timezone example_request \<noteq> []"
    by (simp_all add: example_request_def)
  have c: "configs full_store (hashString example_runtime (req_formId example_request)) = None"
    by (simp add: full_store_def empty_store_def)
  have n: "currentCount example_runtime (clientIP example_request) full_store = 5"
    by (simp add: currentCount_def full_store_def clientIP_def example_request_def)
  have n5: "5 \<le> currentCount example_runtime (clientIP example_request) full_store"
    by (simp add: n)
  show ?thesis
    using save_rejected_when_quota_used_up [OF a c n5, of 0 43200 example_remote] c n by simp
qed

text \<open>
  Claim C7.  A save request that is accepted (required fields present, quota not used up
  or the form already configured) and has an active field rule is answered with success,
  and the configuration is stored without expiry, for every remote service: whether the
  immediate update reads and writes, fails to read, or has its write refused.  The remote
  form is left as the immediate update leaves it.
\<close>

theorem save_succeeds_whatever_the_patch_does:
  assumes "req_apiKey req \<noteq> []" and "req_formId req \<noteq> []" and "req_timezone req \<noteq> []"
    and "configs s (hashString rt (req_formId req)) \<noteq> None \<or> currentCount rt (clientIP req) s < 5"
    and "req_fields req = Some fs" and "hasActiveFields fs"
  shows "fst (handleSaveConfig rt req t1 t2 r s) = jsonResponse Success 200
     \<and> configs (snd (snd (handleSaveConfig rt req t1 t2 r s))) (hashString rt (req_formId req))
         = Some (buildConfig req fs t1, None)
     \<and> fst (snd (handleSaveConfig rt req t1 t2 r s))
         = snd (updateFormDateLimits rt (buildConfig req fs t1) t2 r)"
  using assms by (auto simp: handleSaveConfig_eq Let_def configs_after_reserve)

theorem save_succeeds_whatever_the_patch_does_witness:
  "fst (updateFormDateLimits example_runtime
          (buildConfig example_request (the (req_fields example_request)) 0) 43200 failing_remote)
     = Inl FetchFailed
   \<and> fst (handleSaveConfig example_runtime example_request 0 43200 failing_remote empty_store)
       = jsonResponse Success 200
   \<and> configs (snd (snd (handleSaveConfig example_runtime example_request 0 43200 failing_remote empty_store)))
        ''form1''
       = Some (buildConfig example_request (the (req_fields example_request)) 0, None)"
proof -
  have a: "req_apiKey example_request \<noteq> []" "req_formId example_request \<noteq> []"
    "req_timezone example_request \<noteq> []"
    by (simp_all add: example_request_def)
  have q: "configs empty_store (hashString example_runtime (req_formId example_request)) \<noteq> None
      \<or> currentCount example_runtime (clientIP example_request) empty_store < 5"
    by (simp add: currentCount_def empty_store_def)
  have f: "req_fields example_request = Some (the (req_fields example_request))"
    by (simp add: example_request_def)
  have h: "hasActiveFields (the (req_fields example_request))"
    by (simp add: example_request_def hasActiveFields_def)
  have p: "fst (updateFormDateLimits example_runtime
          (buildConfig example_request (the (req_fields example_request)) 0) 43200 failing_remote)
     = Inl FetchFailed"
    by (simp add: updateFormDateLimits_def failing_remote_def)
  have k: "hashString example_runtime (req_formId example_request) = ''form1''"
    by (simp add: example_runtime_def example_request_def)
  show ?thesis
    using save_succeeds_whatever_the_patch_does [OF a q f h, of 0 43200 failing_remote] p
    by (simp add: k)
qed

text \<open>
  Claim C8.  An accepted save request in which every field rule has \<open>enabled = false\<close>
  stores a configuration marked \<open>disabled\<close> (with the three-day expiry), and for that
  configuration the scheduling decision is "not due" at every instant and for every
  store, whatever run metadata it holds; the store is not touched.
\<close>

theorem all_rules_disabled_never_due:
  assumes "req_apiKey req \<noteq> []" and "req_formId req \<noteq> []" and "req_timezone req \<noteq> []"
    and "configs s (hashString rt (req_formId req)) \<noteq> None \<or> currentCount rt (clientIP req) s < 5"
    and "req_fields req = Some fs"
    and "\<forall>fc \<in> snd ` set fs. \<not> enabled fc"
  shows "fst (handleSaveConfig rt req t1 t2 r s) = jsonResponse Success 200
     \<and> configs (snd (snd (handleSaveConfig rt req t1 t2 r s))) (hashString rt (req_formId req))
         = Some (buildConfig req fs t1, Some 259200)
     \<and> disabled (buildConfig req fs t1)
     \<and> (\<forall>now s'. shouldUpdateNow rt (buildConfig req fs t1) now s' = (Inr False, s'))"
proof -
  have n: "\<not> hasActiveFields fs" using assms(6) by (auto simp: hasActiveFields_iff)
  then have d: "disabled (buildConfig req fs t1)" by (simp add: buildConfig_def)
  show ?thesis
    using assms(1-5) n d
    by (auto simp: handleSaveConfig_eq Let_def configs_after_reserve shouldUpdateNow_disabled)
qed

theorem all_rules_disabled_never_due_witness:
  "fst (handleSaveConfig example_runtime disabled_request 0 43200 example_remote empty_store)
       = jsonResponse Success 200
   \<and> disabled (buildConfig disabled_request (the (req_fields disabled_request)) 0)
   \<and> shouldUpdateNow example_runtime (buildConfig disabled_request (the (req_fields disabled_request)) 0)
        43200 empty_store = (Inr False, empty_store)"
proof -
  have a: "req_apiKey disabled_request \<noteq> []" "req_formId disabled_request \<noteq> []"
    "req_timezone disabled_request \<noteq> []"
    by (simp_all add: disabled_request_def)
  have q: "configs empty_store (hashString example_runtime (req_formId disabled_request)) \<noteq> None
      \<or> currentCount example_runtime (clientIP disabled_request) empty_store < 5"
    by (simp add: currentCount_def empty_store_def)
  have f: "req_fields disabled_request = Some (the (req_fields disabled_request))"
    by (simp add: disabled_request_def)
  have h: "\<forall>fc \<in> snd ` set (the (req_fields disabled_request)). \<not> enabled fc"
    by (simp add: disabled_request_def)
  show ?thesis
    using all_rules_disabled_never_due [OF a q f h, of 0 43200 example_remote] by simp
qed

text \<open>
  Claim C10, as amended.  An accepted save request in which some field rule is enabled
  but has neither \<open>minDays\<close> nor \<open>maxDays\<close> (absent, not null) is classified as active: the
  configuration is not disabled, it is stored without expiry, and the immediate update
  runs.  The patcher leaves every block alone whose rule has both offsets absent.  When
  every enabled rule of the request is without offsets (absent or null), no update of
  this configuration ever writes to the remote form.
\<close>

theorem absent_offsets_active_but_skipped:
  assumes "req_apiKey req \<noteq> []" and "req_formId req \<noteq> []" and "req_timezone req \<noteq> []"
    and "configs s (hashString rt (req_formId req)) \<noteq> None \<or> currentCount rt (clientIP req) s < 5"
    and "req_fields req = Some fs"
    and "\<exists>fc \<in> snd ` set fs. enabled fc \<and> minDays fc = Undefined \<and> maxDays fc = Undefined"
  shows "\<not> disabled (buildConfig req fs t1)
     \<and> fst (handleSaveConfig rt req t1 t2 r s) = jsonResponse Success 200
     \<and> configs (snd (snd (handleSaveConfig rt req t1 t2 r s))) (hashString rt (req_formId req))
         = Some (buildConfig req fs t1, None)
     \<and> fst (snd (handleSaveConfig rt req t1 t2 r s))
         = snd (updateFormDateLimits rt (buildConfig req fs t1) t2 r)
     \<and> (\<forall>b tzNow.
           (\<exists>fc. fieldRule (buildConfig req fs t1) b = Some fc
                   \<and> minDays fc = Undefined \<and> maxDays fc = Undefined)
           \<longrightarrow> updateBlock (buildConfig req fs t1) tzNow b = (b, False))
     \<and> ((\<forall>fc \<in> snd ` set fs. enabled fc \<longrightarrow> \<not> hasDays (minDays fc) \<and> \<not> hasDays (maxDays fc))
          \<longrightarrow> (\<forall>now r'. snd (updateFormDateLimits rt (buildConfig req fs t1) now r') = r'
                         \<and> fst (updateFormDateLimits rt (buildConfig req fs t1) now r') \<noteq> Inr True))"
proof -
  have h: "hasActiveFields fs" using assms(6) by (auto simp: hasActiveFields_iff)
  then have d: "\<not> disabled (buildConfig req fs t1)" by (simp add: buildConfig_def)
  have A: "fst (handleSaveConfig rt req t1 t2 r s) = jsonResponse Success 200
     \<and> configs (snd (snd (handleSaveConfig rt req t1 t2 r s))) (hashString rt (req_formId req))
         = Some (buildConfig req fs t1, None)
     \<and> fst (snd (handleSaveConfig rt req t1 t2 r s))
         = snd (updateFormDateLimits rt (buildConfig req fs t1) t2 r)"
    using assms(1-5) h by (auto simp: handleSaveConfig_eq Let_def configs_after_reserve)
  have B: "\<forall>b tzNow.
           (\<exists>fc. fieldRule (buildConfig req fs t1) b = Some fc
                   \<and> minDays fc = Undefined \<and> maxDays fc = Undefined)
           \<longrightarrow> updateBlock (buildConfig req fs t1) tzNow b = (b, False)"
    by (auto simp: unmanaged_def hasDays_def intro!: updateBlock_unmanaged)
  have C: "(\<forall>fc \<in> snd ` set fs. enabled fc \<longrightarrow> \<not> hasDays (minDays fc) \<and> \<not> hasDays (maxDays fc))
          \<longrightarrow> (\<forall>now r'. snd (updateFormDateLimits rt (buildConfig req fs t1) now r') = r'
                         \<and> fst (updateFormDateLimits rt (buildConfig req fs t1) now r') \<noteq> Inr True)"
  proof (intro impI allI)
    fix now r'
    assume "\<forall>fc \<in> snd ` set fs. enabled fc \<longrightarrow> \<not> hasDays (minDays fc) \<and> \<not> hasDays (maxDays fc)"
    then have u: "\<forall>fc \<in> snd ` set (cfg_fields (buildConfig req fs t1)).
                    \<not> enabled fc \<or> (\<not> hasDays (minDays fc) \<and> \<not> hasDays (maxDays fc))"
      by (auto simp: buildConfig_def)
    show "snd (updateFormDateLimits rt (buildConfig req fs t1) now r') = r'
            \<and> fst (updateFormDateLimits rt (buildConfig req fs t1) now r') \<noteq> Inr True"
      by (simp add: update_all_unmanaged [OF u])
  qed
  show ?thesis using d A B C by blast
qed

theorem absent_offsets_active_but_skipped_witness:
  "\<not> disabled (buildConfig absent_request (the (req_fields absent_request)) 0)
   \<and> handleSaveConfig example_runtime absent_request 0 43200 example_remote empty_store
       = (jsonResponse Success 200, example_remote,
          snd (snd (handleSaveConfig example_runtime absent_request 0 43200 example_remote empty_store)))
   \<and> configs (snd (snd (handleSaveConfig example_runtime absent_request 0 43200 example_remote empty_store)))
        ''form1''
       = Some (buildConfig absent_request (the (req_fields absent_request)) 0, None)"
proof -
  have a: "req_apiKey absent_request \<noteq> []" "req_formId absent_request \<noteq> []"
    "req_timezone absent_request \<noteq> []"
    by (simp_all add: absent_request_def)
  have q: "configs empty_store (hashString example_runtime (req_formId absent_request)) \<noteq> None
      \<or> currentCount example_runtime (clientIP absent_request) empty_store < 5"
    by (simp add: currentCount_def empty_store_def)
  have f: "req_fields absent_request = Some (the (req_fields absent_request))"
    by (simp add: absent_request_def)
  have h: "\<exists>fc \<in> snd ` set (the (req_fields absent_request)).
             enabled fc \<and> minDays fc = Undefined \<and> maxDays fc = Undefined"
    by (simp add: absent_request_def)
  have h2: "\<forall>fc \<in> snd ` set (the (req_fields absent_request)).
             enabled fc \<longrightarrow> \<not> hasDays (minDays fc) \<and> \<not> hasDays (maxDays fc)"
    by (simp add: absent_request_def hasDays_def)
  have k: "hashString example_runtime (req_formId absent_request) = ''form1''"
    by (simp add: example_runtime_def absent_request_def)
  note t = absent_offsets_active_but_skipped [OF a q f h, of 0 43200 example_remote]
  from t h2 have "fst (snd (handleSaveConfig example_runtime absent_request 0 43200 example_remote empty_store))
      = example_remote" by simp
  with t show ?thesis by (simp add: k prod_eq_iff)
qed

text \<open>
  The claim as written says that the update never modifies any field of such a
  configuration.  That fails when another rule of the same configuration has offsets:
  its block is written.
\<close>

theorem absent_offsets_never_modified_counterexample:
  "(''field0'', \<lparr>enabled = True, minDays = Undefined, maxDays = Undefined\<rparr>)
       \<in> set (the (req_fields mixed_request))
   \<and> fst (handleSaveConfig example_runtime mixed_request 0 43200 example_remote empty_store)
       = jsonResponse Success 200
   \<and> fst (updateFormDateLimits example_runtime
            (buildConfig mixed_request (the (req_fields mixed_request)) 0) 43200 example_remote) = Inr True
   \<and> blocks (fst (snd (handleSaveConfig example_runtime mixed_request 0 43200 example_remote empty_store)))
       \<noteq> blocks example_remote"
proof -
  have w: "fst (updateFormDateLimits example_runtime
            (buildConfig mixed_request (the (req_fields mixed_request)) 0) 43200 example_remote) = Inr True"
    by (simp add: update_result_cases example_remote_def example_runtime_def buildConfig_def
        mixed_request_def example_block_def updateBlock_modified_iff fieldRule_def remoteAfter_def)
  have b: "blocks (snd (updateFormDateLimits example_runtime
            (buildConfig mixed_request (the (req_fields mixed_request)) 0) 43200 example_remote))
       \<noteq> blocks example_remote"
    by (rule update_written_changes [OF w])
  have s: "handleSaveConfig example_runtime mixed_request 0 43200 example_remote empty_store
      = (jsonResponse Success 200,
         snd (updateFormDateLimits example_runtime
            (buildConfig mixed_request (the (req_fields mixed_request)) 0) 43200 example_remote),
         snd (snd (handleSaveConfig example_runtime mixed_request 0 43200 example_remote empty_store)))"
    by (simp add: handleSaveConfig_eq Let_def mixed_request_def empty_store_def currentCount_def
        hasActiveFields_def)
  show ?thesis
    using w b by (subst (1 2) s) (simp add: mixed_request_def)
qed

end
